theory Spec2Isabelle
  imports Complex_Main "HOL-Library.Multiset"
begin

section \<open>Data model\<close>

text \<open>
  The records of \<^verbatim>\<open>utils/supabase/client.ts\<close> and the interfaces at the head of
  \<^verbatim>\<open>components/POS.tsx\<close>. Identifiers are strings (UUIDs). A quantity is an integer
  (column type INTEGER); a monetary amount is a JavaScript number, a double, modelled by
  the rational number that is its value (section \<open>JavaScript numbers\<close> has the rounding
  of the arithmetic). The fields \<^verbatim>\<open>id\<close> and \<^verbatim>\<open>name\<close> carry the record's name as a prefix; the
  optional \<^verbatim>\<open>created_at\<close> of the catalog records is never read by the code below and is
  left out.
\<close>

datatype Role = admin | bartender | waitress

record User =
  user_id :: string
  username :: string
  user_name :: string
  pin :: string
  role :: Role

record Item =
  item_id :: string
  item_name :: string
  item_quantity :: int
  item_barcode :: "string option"
  item_price :: rat
  item_category :: string
  low_stock_threshold :: int

record Shot =
  shot_id :: string
  shot_name :: string
  shot_price :: rat

record Special =
  special_id :: string
  special_name :: string
  special_price :: rat

text \<open>
  \<^verbatim>\<open>CartItem.item\<close> has the union type \<^verbatim>\<open>Item | Shot | Special\<close>. The code reads
  \<^verbatim>\<open>item.id\<close> and \<^verbatim>\<open>item.price\<close> of any member, and \<^verbatim>\<open>(item as Item).quantity\<close>, which is
  \<^verbatim>\<open>undefined\<close> on a Shot or a Special.
\<close>

datatype Product = ItemP Item | ShotP Shot | SpecialP Special

fun product_id :: "Product \<Rightarrow> string" where
  "product_id (ItemP i) = item_id i"
| "product_id (ShotP s) = shot_id s"
| "product_id (SpecialP s) = special_id s"

fun product_price :: "Product \<Rightarrow> rat" where
  "product_price (ItemP i) = item_price i"
| "product_price (ShotP s) = shot_price s"
| "product_price (SpecialP s) = special_price s"

fun product_quantity :: "Product \<Rightarrow> int option" where
  "product_quantity (ItemP i) = Some (item_quantity i)"
| "product_quantity (ShotP s) = None"
| "product_quantity (SpecialP s) = None"

record CartItem =
  item :: Product
  quantity :: int
  isShot :: bool
  isSpecial :: bool

text \<open>
  The code reports a refusal with \<^verbatim>\<open>alert\<close> and returns. The alerts are the errors of the
  specification: \<^verbatim>\<open>'Item out of stock!'\<close> is \<open>OutOfStock\<close>, \<^verbatim>\<open>'Not enough stock available!'\<close>
  is \<open>InsufficientStock\<close>, \<^verbatim>\<open>'Please enter a table name and add items to the cart'\<close> is
  \<open>ValidationError\<close>, and the alerts of the \<^verbatim>\<open>catch\<close> blocks are \<open>PersistenceError\<close>.
\<close>

datatype error = OutOfStock | InsufficientStock | ValidationError | PersistenceError

section \<open>Cart operations\<close>

text \<open>\<^verbatim>\<open>Array.prototype.findIndex\<close>; \<open>None\<close> stands for the result \<^verbatim>\<open>-1\<close>.\<close>

fun findIndex :: "('a \<Rightarrow> bool) \<Rightarrow> 'a list \<Rightarrow> nat option" where
  "findIndex p [] = None"
| "findIndex p (x # xs) =
     (if p x then Some 0 else map_option Suc (findIndex p xs))"

text \<open>
  \<^verbatim>\<open>addToCart(item)\<close>, lines 277-295. The result is the alert raised, if any, and the cart
  after the call. The existing line is looked up by product id alone. The increment is
  made in place on the line object, which a cart loaded from a tab shares with the list of
  open tabs; the model follows the cart.
\<close>

definition addToCart :: "Item \<Rightarrow> CartItem list \<Rightarrow> error option \<times> CartItem list" where
  "addToCart it cart =
     (if item_quantity it \<le> 0 then (Some OutOfStock, cart)
      else
        (case findIndex (\<lambda>ci. product_id (item ci) = item_id it) cart of
           Some existingIndex \<Rightarrow>
             (if quantity (cart ! existingIndex) < item_quantity it
              then (None, cart[existingIndex :=
                      (cart ! existingIndex)\<lparr>quantity := quantity (cart ! existingIndex) + 1\<rparr>])
              else (Some InsufficientStock, cart))
         | None \<Rightarrow>
             (None, cart @ [\<lparr>item = ItemP it, quantity = 1, isShot = False, isSpecial = False\<rparr>])))"

text \<open>\<^verbatim>\<open>addShotToCart(shot)\<close> and \<^verbatim>\<open>addSpecialToCart(special)\<close>, lines 297-317.\<close>

definition addShotToCart :: "Shot \<Rightarrow> CartItem list \<Rightarrow> CartItem list" where
  "addShotToCart shot cart =
     (case findIndex (\<lambda>ci. product_id (item ci) = shot_id shot \<and> isShot ci) cart of
        Some existingIndex \<Rightarrow>
          cart[existingIndex :=
            (cart ! existingIndex)\<lparr>quantity := quantity (cart ! existingIndex) + 1\<rparr>]
      | None \<Rightarrow>
          cart @ [\<lparr>item = ShotP shot, quantity = 1, isShot = True, isSpecial = False\<rparr>])"

definition addSpecialToCart :: "Special \<Rightarrow> CartItem list \<Rightarrow> CartItem list" where
  "addSpecialToCart special cart =
     (case findIndex (\<lambda>ci. product_id (item ci) = special_id special \<and> isSpecial ci) cart of
        Some existingIndex \<Rightarrow>
          cart[existingIndex :=
            (cart ! existingIndex)\<lparr>quantity := quantity (cart ! existingIndex) + 1\<rparr>]
      | None \<Rightarrow>
          cart @ [\<lparr>item = SpecialP special, quantity = 1, isShot = False, isSpecial = True\<rparr>])"

text \<open>
  \<^verbatim>\<open>updateQuantity(itemId, change, isShot, isSpecial)\<close>, lines 319-341. \<open>updateLine\<close> is the
  function mapped over the cart: its second component is the new line (\<open>None\<close> for the
  \<^verbatim>\<open>null\<close> that \<^verbatim>\<open>filter(Boolean)\<close> drops), its first the alert it raises. The stock ceiling
  is the quantity of the product held in the cart line; the comparison
  \<^verbatim>\<open>newQty > undefined\<close> is false.
\<close>

definition updateLine ::
  "string \<Rightarrow> int \<Rightarrow> bool \<Rightarrow> bool \<Rightarrow> CartItem \<Rightarrow> error option \<times> CartItem option" where
  "updateLine itemId change isShot' isSpecial' ci =
     (if product_id (item ci) = itemId \<and> isShot ci = isShot' \<and> isSpecial ci = isSpecial' then
        (let newQty = quantity ci + change in
         if newQty \<le> 0 then (None, None)
         else if isShot' \<or> isSpecial' then (None, Some (ci\<lparr>quantity := newQty\<rparr>))
         else
           (case product_quantity (item ci) of
              Some stock \<Rightarrow>
                (if newQty > stock then (Some InsufficientStock, Some ci)
                 else (None, Some (ci\<lparr>quantity := newQty\<rparr>)))
            | None \<Rightarrow> (None, Some (ci\<lparr>quantity := newQty\<rparr>))))
      else (None, Some ci))"

definition updateQuantity ::
  "string \<Rightarrow> int \<Rightarrow> bool \<Rightarrow> bool \<Rightarrow> CartItem list \<Rightarrow> error option \<times> CartItem list" where
  "updateQuantity itemId change isShot' isSpecial' cart =
     (let rs = map (updateLine itemId change isShot' isSpecial') cart in
      (if list_ex (\<lambda>r. fst r = Some InsufficientStock) rs then Some InsufficientStock else None,
       List.map_filter snd rs))"

definition removeFromCart :: "string \<Rightarrow> bool \<Rightarrow> bool \<Rightarrow> CartItem list \<Rightarrow> CartItem list" where
  "removeFromCart itemId isShot' isSpecial' cart =
     filter (\<lambda>ci. \<not> (product_id (item ci) = itemId \<and> isShot ci = isShot' \<and> isSpecial ci = isSpecial'))
       cart"

text \<open>
  A run of \<^verbatim>\<open>addToCart\<close> and \<^verbatim>\<open>updateQuantity\<close> calls for one stocked item: \<open>cart_step\<close>
  is one call, as the plus and minus buttons of a cart line and the item's tile make it,
  and \<open>cart_trace\<close> lists the cart before the run and after each of its calls.
\<close>

datatype cart_op = AddItem | ChangeQuantity int

fun cart_step :: "Item \<Rightarrow> cart_op \<Rightarrow> CartItem list \<Rightarrow> error option \<times> CartItem list" where
  "cart_step it AddItem cart = addToCart it cart"
| "cart_step it (ChangeQuantity change) cart =
     updateQuantity (item_id it) change False False cart"

fun cart_trace :: "Item \<Rightarrow> cart_op list \<Rightarrow> CartItem list \<Rightarrow> CartItem list list" where
  "cart_trace it [] cart = [cart]"
| "cart_trace it (x # xs) cart = cart # cart_trace it xs (snd (cart_step it x cart))"

text \<open>
  \<open>line_of it ci\<close>: the cart line \<open>ci\<close> carries the id of the stocked item \<open>it\<close>.
  \<open>cart_inv it cart\<close>: a line that carries the id of \<open>it\<close> is an item line holding \<open>it\<close>
  itself, with a quantity of at most the stock, and there is at most one such line. The
  empty cart is such a cart, and so is every cart built from it by \<^verbatim>\<open>addToCart\<close> and
  \<^verbatim>\<open>updateQuantity\<close> while the item is unchanged.
\<close>

definition line_of :: "Item \<Rightarrow> CartItem \<Rightarrow> bool" where
  "line_of it ci \<longleftrightarrow> product_id (item ci) = item_id it"

definition cart_inv :: "Item \<Rightarrow> CartItem list \<Rightarrow> bool" where
  "cart_inv it cart \<longleftrightarrow>
     (\<forall>ci \<in> set cart. line_of it ci \<longrightarrow>
        item ci = ItemP it \<and> \<not> isShot ci \<and> \<not> isSpecial ci \<and> quantity ci \<le> item_quantity it) \<and>
     length (filter (line_of it) cart) \<le> 1"

section \<open>JavaScript numbers\<close>

text \<open>
  A JavaScript number is an IEEE-754 double: a sign, a significand of 53 bits and a power
  of two. It is modelled by the rational number that is its value. An arithmetic operation
  yields the double nearest to the exact result, and of two equally near ones the one
  whose significand is even; a decimal literal, and a decimal number read from the store,
  denotes the double nearest to it. The exponent is not bounded in this model: overflow to
  \<^verbatim>\<open>Infinity\<close>, the subnormal numbers and \<^verbatim>\<open>NaN\<close> are left out, the amounts of a point of
  sale being far from them.

  \<open>binade n y\<close>, for a positive \<open>y\<close>, is the exponent \<open>e\<close> with \<open>2 powi e \<le> y < 2 powi (e + 1)\<close>,
  found in at most \<open>n\<close> halvings or doublings of \<open>y\<close>; 2200 of them reach every double.
  \<open>round_half_even r\<close> is the integer nearest to \<open>r\<close>, the even one of two equally near
  ones. \<open>to_double x\<close> is the double nearest to \<open>x\<close>: the nearest multiple of
  \<open>2 powi (e - 52)\<close>, where \<open>e\<close> is the binade of \<open>\<bar>x\<bar>\<close>.
\<close>

fun binade :: "nat \<Rightarrow> rat \<Rightarrow> int" where
  "binade 0 y = 0"
| "binade (Suc n) y =
     (if 2 \<le> y then binade n (y / 2) + 1
      else if y < 1 then binade n (y * 2) - 1
      else 0)"

definition round_half_even :: "rat \<Rightarrow> int" where
  "round_half_even r =
     (let f = \<lfloor>r\<rfloor>; d = r - of_int f
      in if d < 1 / 2 then f else if 1 / 2 < d then f + 1 else if even f then f else f + 1)"

definition to_double :: "rat \<Rightarrow> rat" where
  "to_double x =
     (if x = 0 then 0
      else
        (let ulp = 2 powi (binade 2200 \<bar>x\<bar> - 52)
         in of_int (round_half_even (x / ulp)) * ulp))"

section \<open>Pricing\<close>

text \<open>
  Lines 347-362. The caller is \<^verbatim>\<open>getCurrentUser()\<close>, which is \<^verbatim>\<open>null\<close> when nobody is logged
  in; \<^verbatim>\<open>user?.role\<close> is then \<^verbatim>\<open>undefined\<close>. \<^verbatim>\<open>reduce\<close> folds from the left, starting at 0.
  Every \<^verbatim>\<open>+\<close>, \<^verbatim>\<open>-\<close>, \<^verbatim>\<open>*\<close> and \<^verbatim>\<open>/\<close> of the source is the exact operation followed by
  \<open>to_double\<close>, and the literals \<^verbatim>\<open>0.1\<close> and \<^verbatim>\<open>1.15\<close> are the doubles nearest to them.
\<close>

definition calculateSubtotal :: "CartItem list \<Rightarrow> rat" where
  "calculateSubtotal cart =
     foldl (\<lambda>sum ci. to_double (sum + to_double (product_price (item ci) * of_int (quantity ci))))
       0 cart"

definition calculateServiceFee :: "User option \<Rightarrow> CartItem list \<Rightarrow> rat" where
  "calculateServiceFee user cart =
     (if map_option role user = Some waitress
      then to_double (calculateSubtotal cart * to_double 0.1) else 0)"

definition calculateTotal :: "User option \<Rightarrow> CartItem list \<Rightarrow> rat" where
  "calculateTotal user cart =
     to_double (calculateSubtotal cart + calculateServiceFee user cart)"

definition calculateVAT :: "User option \<Rightarrow> CartItem list \<Rightarrow> rat" where
  "calculateVAT user cart =
     (let total = calculateTotal user cart
      in to_double (total - to_double (total / to_double 1.15)))"

text \<open>
  \<open>line_amount ci\<close> is the exact product of the unit price and the quantity of a line.
  \<open>dyadic m x\<close>: \<open>x\<close> is a whole number of \<open>2 ^ m\<close>-ths. \<open>exact_amounts m cs\<close>: every line
  amount of the cart \<open>cs\<close> is a whole number of \<open>2 ^ m\<close>-ths, and together they come, in
  absolute value, to less than \<open>2 ^ 53\<close> of them.
\<close>

definition line_amount :: "CartItem \<Rightarrow> rat" where
  "line_amount ci = product_price (item ci) * of_int (quantity ci)"

definition dyadic :: "nat \<Rightarrow> rat \<Rightarrow> bool" where
  "dyadic m x \<longleftrightarrow> of_int \<lfloor>x * 2 ^ m\<rfloor> = x * 2 ^ m"

definition exact_amounts :: "nat \<Rightarrow> CartItem list \<Rightarrow> bool" where
  "exact_amounts m cs \<longleftrightarrow>
     m \<le> 1000 \<and> list_all (\<lambda>ci. dyadic m (line_amount ci)) cs \<and>
     (\<Sum>ci\<leftarrow>cs. \<bar>line_amount ci\<bar>) * 2 ^ m < 2 ^ 53"

text \<open>
  A price of the store is a DECIMAL(10, 2), a whole number of cents, and the point of sale
  has the double nearest to it. \<open>cents ci\<close> is the number of cents nearest to the unit
  price of a line and \<open>decimal_amount ci\<close> the amount of the line in decimal arithmetic.
  \<open>decimal_line ci\<close>: the quantity is positive and the unit price is the double nearest to
  a whole number of cents that is not negative. \<open>decimal_prices cs\<close>: the cart has at
  most 1000 lines, all of them such lines, and comes to at most 100 000 000 in decimal
  arithmetic (a DECIMAL(10, 2) is less than that).
\<close>

definition cents :: "CartItem \<Rightarrow> int" where
  "cents ci = \<lfloor>product_price (item ci) * 100 + 1 / 2\<rfloor>"

definition decimal_amount :: "CartItem \<Rightarrow> rat" where
  "decimal_amount ci = of_int (cents ci * quantity ci) / 100"

definition decimal_line :: "CartItem \<Rightarrow> bool" where
  "decimal_line ci \<longleftrightarrow>
     0 < quantity ci \<and> 0 \<le> cents ci \<and>
     product_price (item ci) = to_double (of_int (cents ci) / 100)"

definition decimal_prices :: "CartItem list \<Rightarrow> bool" where
  "decimal_prices cs \<longleftrightarrow>
     length cs \<le> 1000 \<and> list_all decimal_line cs \<and>
     (\<Sum>ci\<leftarrow>cs. decimal_amount ci) \<le> 10 ^ 8"

text \<open>
  \<^verbatim>\<open>x.toFixed(2)\<close>, as the number its digits denote: the multiple of 1/100 nearest to
  \<open>x\<close>, the larger in magnitude of two equally near ones.
\<close>

definition toFixed2 :: "rat \<Rightarrow> rat" where
  "toFixed2 x =
     (if x < 0 then - (of_int \<lfloor>- x * 100 + 1 / 2\<rfloor> / 100)
      else of_int \<lfloor>x * 100 + 1 / 2\<rfloor> / 100)"

section \<open>The data store\<close>

text \<open>
  The tables of \<^verbatim>\<open>DATABASE_SETUP.md\<close> that the point of sale reads and writes. The three
  line tables have the same columns but for the name of the product column
  (\<^verbatim>\<open>item_id\<close>, \<^verbatim>\<open>shot_id\<close>, \<^verbatim>\<open>special_id\<close>), here \<open>line_product_id\<close>; the columns \<^verbatim>\<open>id\<close> and
  \<^verbatim>\<open>created_at\<close> of a line, filled in by the store, are never read by the point of sale and
  are left out. Timestamps are natural numbers. A value is stored as it is sent: the
  rounding of a DECIMAL(10, 2) column is not modelled.
\<close>

datatype OrderStatus = pending | paid

datatype PaymentMethod = cash | visa | mpesa | ecocash

record Order =
  order_id :: string
  table_name :: string
  status :: OrderStatus
  payment_method :: "PaymentMethod option"
  total :: rat
  service_fee :: rat
  created_at :: nat
  updated_at :: nat
  staff_id :: "string option"

record OrderLine =
  line_order_id :: string
  line_product_id :: string
  line_staff_id :: "string option"
  line_quantity :: int
  price_at_time :: rat

record Store =
  items :: "Item list"
  shots :: "Shot list"
  specials :: "Special list"
  orders :: "Order list"
  order_items :: "OrderLine list"
  order_shots :: "OrderLine list"
  order_specials :: "OrderLine list"

text \<open>
  The requests of the client, each as what it does when the store accepts it.
  \<^verbatim>\<open>from(t).delete().eq('order_id', x)\<close> on a line table:
\<close>

definition delete_lines :: "string \<Rightarrow> OrderLine list \<Rightarrow> OrderLine list" where
  "delete_lines x rows = filter (\<lambda>r. line_order_id r \<noteq> x) rows"

definition delete_order_items :: "string \<Rightarrow> Store \<Rightarrow> Store" where
  "delete_order_items x db = db\<lparr>order_items := delete_lines x (order_items db)\<rparr>"

definition delete_order_shots :: "string \<Rightarrow> Store \<Rightarrow> Store" where
  "delete_order_shots x db = db\<lparr>order_shots := delete_lines x (order_shots db)\<rparr>"

definition delete_order_specials :: "string \<Rightarrow> Store \<Rightarrow> Store" where
  "delete_order_specials x db = db\<lparr>order_specials := delete_lines x (order_specials db)\<rparr>"

text \<open>
  \<^verbatim>\<open>from('orders').delete().eq('id', x)\<close>. In \<^verbatim>\<open>DATABASE_SETUP.md\<close> each line table declares
  \<^verbatim>\<open>order_id UUID NOT NULL REFERENCES orders(id) ON DELETE CASCADE\<close>: a store made so
  deletes the lines of a deleted order with it. That is the work of the store, not a
  request of the client. \<open>delete_orders_row\<close> is the deletion of the row, which is what the
  client asks for; \<open>on_delete_cascade\<close> is what the constraint adds; \<open>delete_orders\<close> is the
  request in a store with the constraint (\<open>True\<close>) and in one whose line tables were made
  without it (\<open>False\<close>), where the lines of the order stay.
\<close>

definition delete_orders_row :: "string \<Rightarrow> Store \<Rightarrow> Store" where
  "delete_orders_row x db = db\<lparr>orders := filter (\<lambda>r. order_id r \<noteq> x) (orders db)\<rparr>"

definition on_delete_cascade :: "string \<Rightarrow> Store \<Rightarrow> Store" where
  "on_delete_cascade x db =
     db\<lparr>order_items := delete_lines x (order_items db),
        order_shots := delete_lines x (order_shots db),
        order_specials := delete_lines x (order_specials db)\<rparr>"

definition delete_orders :: "bool \<Rightarrow> string \<Rightarrow> Store \<Rightarrow> Store" where
  "delete_orders cascading x db =
     (if cascading then on_delete_cascade x (delete_orders_row x db)
      else delete_orders_row x db)"

text \<open>\<^verbatim>\<open>from('orders').update(f).eq('id', x)\<close> and \<^verbatim>\<open>from('items').update(f).eq('id', x)\<close>.\<close>

definition update_orders :: "(Order \<Rightarrow> Order) \<Rightarrow> string \<Rightarrow> Store \<Rightarrow> Store" where
  "update_orders f x db = db\<lparr>orders := map (\<lambda>r. if order_id r = x then f r else r) (orders db)\<rparr>"

definition update_items :: "(Item \<Rightarrow> Item) \<Rightarrow> string \<Rightarrow> Store \<Rightarrow> Store" where
  "update_items f x db = db\<lparr>items := map (\<lambda>r. if item_id r = x then f r else r) (items db)\<rparr>"

text \<open>\<^verbatim>\<open>from(t).insert(row)\<close>.\<close>

definition insert_orders :: "Order \<Rightarrow> Store \<Rightarrow> Store" where
  "insert_orders r db = db\<lparr>orders := orders db @ [r]\<rparr>"

definition insert_order_items :: "OrderLine \<Rightarrow> Store \<Rightarrow> Store" where
  "insert_order_items r db = db\<lparr>order_items := order_items db @ [r]\<rparr>"

definition insert_order_shots :: "OrderLine \<Rightarrow> Store \<Rightarrow> Store" where
  "insert_order_shots r db = db\<lparr>order_shots := order_shots db @ [r]\<rparr>"

definition insert_order_specials :: "OrderLine \<Rightarrow> Store \<Rightarrow> Store" where
  "insert_order_specials r db = db\<lparr>order_specials := order_specials db @ [r]\<rparr>"

text \<open>
  What the store and the clock answer during one call: the time, the \<^verbatim>\<open>error\<close> of the
  \<^verbatim>\<open>update\<close> of an order (\<open>None\<close> when it is accepted), and the answer to
  \<^verbatim>\<open>insert(...).select().single()\<close> on \<^verbatim>\<open>orders\<close>: the \<^verbatim>\<open>error\<close>, or the \<^verbatim>\<open>id\<close> the store gave
  the new row. The answers to the other requests are not looked at by the code; in the
  model these requests are accepted. \<open>cascade\<close> tells whether the line tables of the store
  have the \<^verbatim>\<open>ON DELETE CASCADE\<close> of \<^verbatim>\<open>DATABASE_SETUP.md\<close>.
\<close>

record Env =
  now :: nat
  updateError :: "error option"
  orderInsert :: "error + string"
  cascade :: bool

section \<open>The state of the point of sale\<close>

record OpenTab =
  tab_id :: string
  tab_table_name :: string
  tab_created_at :: nat
  tab_updated_at :: nat
  tab_total :: rat
  tab_service_fee :: rat
  tab_items :: "CartItem list"

datatype OrderType = quick | tab

text \<open>
  The \<^verbatim>\<open>useState\<close> variables of the component that the cart and settlement functions read
  or write.
\<close>

record POS =
  cart :: "CartItem list"
  tableName :: string
  editingTabId :: "string option"
  orderType :: OrderType
  paymentMethod :: PaymentMethod
  showPayment :: bool
  showOpenTabs :: bool
  openTabs :: "OpenTab list"

section \<open>Open tabs\<close>

text \<open>
  \<^verbatim>\<open>loadOpenTabs\<close>, lines 224-266. The query embeds in every order its lines, and in every
  line the catalog row its product column refers to: \<^verbatim>\<open>oi.items\<close> is the row of \<^verbatim>\<open>items\<close> as
  it is now, and the line's \<^verbatim>\<open>price_at_time\<close> is not read. The product column is declared
  \<^verbatim>\<open>NOT NULL REFERENCES\<close>, so the row exists; a line whose product is missing is left out
  here. Orders come by \<^verbatim>\<open>updated_at\<close>, latest first. Without a user the filter value is
  \<^verbatim>\<open>undefined\<close>, the query gives no data and the state keeps its tabs.
\<close>

definition hydrate_items :: "Store \<Rightarrow> string \<Rightarrow> CartItem list" where
  "hydrate_items db x =
     List.map_filter
       (\<lambda>oi. map_option
          (\<lambda>r. \<lparr>item = ItemP r, quantity = line_quantity oi, isShot = False, isSpecial = False\<rparr>)
          (find (\<lambda>r. item_id r = line_product_id oi) (items db)))
       (filter (\<lambda>oi. line_order_id oi = x) (order_items db))"

definition hydrate_shots :: "Store \<Rightarrow> string \<Rightarrow> CartItem list" where
  "hydrate_shots db x =
     List.map_filter
       (\<lambda>os. map_option
          (\<lambda>r. \<lparr>item = ShotP r, quantity = line_quantity os, isShot = True, isSpecial = False\<rparr>)
          (find (\<lambda>r. shot_id r = line_product_id os) (shots db)))
       (filter (\<lambda>os. line_order_id os = x) (order_shots db))"

definition hydrate_specials :: "Store \<Rightarrow> string \<Rightarrow> CartItem list" where
  "hydrate_specials db x =
     List.map_filter
       (\<lambda>osp. map_option
          (\<lambda>r. \<lparr>item = SpecialP r, quantity = line_quantity osp, isShot = False, isSpecial = True\<rparr>)
          (find (\<lambda>r. special_id r = line_product_id osp) (specials db)))
       (filter (\<lambda>osp. line_order_id osp = x) (order_specials db))"

definition to_tab :: "Store \<Rightarrow> Order \<Rightarrow> OpenTab" where
  "to_tab db order =
     \<lparr>tab_id = order_id order,
      tab_table_name = table_name order,
      tab_created_at = created_at order,
      tab_updated_at = updated_at order,
      tab_total = total order,
      tab_service_fee = service_fee order,
      tab_items = hydrate_items db (order_id order) @ hydrate_shots db (order_id order)
                    @ hydrate_specials db (order_id order)\<rparr>"

definition loadOpenTabs :: "User option \<Rightarrow> Store \<Rightarrow> OpenTab list option" where
  "loadOpenTabs user db =
     (case user of
        None \<Rightarrow> None
      | Some u \<Rightarrow>
          Some (map (to_tab db)
            (rev (sort_key updated_at
               (filter (\<lambda>r. status r = pending \<and> staff_id r = Some (user_id u)) (orders db))))))"

definition setOpenTabs :: "User option \<Rightarrow> Store \<Rightarrow> POS \<Rightarrow> POS" where
  "setOpenTabs user db pos =
     (case loadOpenTabs user db of None \<Rightarrow> pos | Some tabs \<Rightarrow> pos\<lparr>openTabs := tabs\<rparr>)"

text \<open>\<^verbatim>\<open>loadTab(tab)\<close> and \<^verbatim>\<open>closeTab(tab)\<close>, lines 751-768.\<close>

definition loadTab :: "OpenTab \<Rightarrow> POS \<Rightarrow> POS" where
  "loadTab t pos =
     pos\<lparr>cart := tab_items t, tableName := tab_table_name t, editingTabId := Some (tab_id t),
         orderType := tab, showOpenTabs := False\<rparr>"

definition closeTab :: "OpenTab \<Rightarrow> POS \<Rightarrow> POS" where
  "closeTab t pos =
     pos\<lparr>cart := tab_items t, tableName := tab_table_name t, editingTabId := Some (tab_id t),
         orderType := quick, showOpenTabs := False, showPayment := True\<rparr>"

text \<open>
  Reopening a tab for edit or for payment: the Edit or the Pay button of the tab with the
  given id in the list of open tabs.
\<close>

definition reopenForEdit :: "string \<Rightarrow> POS \<Rightarrow> POS" where
  "reopenForEdit x pos =
     (case find (\<lambda>t. tab_id t = x) (openTabs pos) of Some t \<Rightarrow> loadTab t pos | None \<Rightarrow> pos)"

definition reopenForPayment :: "string \<Rightarrow> POS \<Rightarrow> POS" where
  "reopenForPayment x pos =
     (case find (\<lambda>t. tab_id t = x) (openTabs pos) of Some t \<Rightarrow> closeTab t pos | None \<Rightarrow> pos)"

section \<open>Settlement\<close>

text \<open>
  The row written for a cart line, and the loop of \<^verbatim>\<open>saveAsTab\<close>, lines 414-444: a line
  goes to \<^verbatim>\<open>order_shots\<close> if it is a shot, else to \<^verbatim>\<open>order_specials\<close> if it is a special,
  else to \<^verbatim>\<open>order_items\<close>.
\<close>

definition line_row :: "User option \<Rightarrow> string \<Rightarrow> CartItem \<Rightarrow> OrderLine" where
  "line_row user orderId cartItem =
     \<lparr>line_order_id = orderId,
      line_product_id = product_id (item cartItem),
      line_staff_id = map_option user_id user,
      line_quantity = quantity cartItem,
      price_at_time = product_price (item cartItem)\<rparr>"

fun save_lines :: "User option \<Rightarrow> string \<Rightarrow> CartItem list \<Rightarrow> Store \<Rightarrow> Store" where
  "save_lines user orderId [] db = db"
| "save_lines user orderId (cartItem # rest) db =
     save_lines user orderId rest
       (if isShot cartItem then insert_order_shots (line_row user orderId cartItem) db
        else if isSpecial cartItem then insert_order_specials (line_row user orderId cartItem) db
        else insert_order_items (line_row user orderId cartItem) db)"

text \<open>
  The cart lines that the loop sends to each of the three tables, and the rows of one
  order in a table.
\<close>

definition item_lines :: "CartItem list \<Rightarrow> CartItem list" where
  "item_lines cs = filter (\<lambda>ci. \<not> isShot ci \<and> \<not> isSpecial ci) cs"

definition shot_lines :: "CartItem list \<Rightarrow> CartItem list" where
  "shot_lines cs = filter isShot cs"

definition special_lines :: "CartItem list \<Rightarrow> CartItem list" where
  "special_lines cs = filter (\<lambda>ci. \<not> isShot ci \<and> isSpecial ci) cs"

definition lines_of :: "string \<Rightarrow> OrderLine list \<Rightarrow> OrderLine list" where
  "lines_of x rows = filter (\<lambda>r. line_order_id r = x) rows"

text \<open>
  \<^verbatim>\<open>saveAsTab\<close>, lines 364-462. The result is the alert of a refusal or failure (\<open>None\<close>
  when the tab is saved), the store and the state after the call. Printing the proforma
  changes neither. The id of a tab is a UUID, never the empty string, so
  \<^verbatim>\<open>if (editingTabId)\<close> asks whether there is one.
\<close>

definition saveAsTab :: "User option \<Rightarrow> Env \<Rightarrow> Store \<Rightarrow> POS \<Rightarrow> error option \<times> Store \<times> POS" where
  "saveAsTab user env db pos =
     (if tableName pos = [] \<or> cart pos = [] then (Some ValidationError, db, pos)
      else
        (case editingTabId pos of
           Some tabId \<Rightarrow>
             (case updateError env of
                Some e \<Rightarrow> (Some PersistenceError, db, pos)
              | None \<Rightarrow>
                  (let db1 = update_orders
                         (\<lambda>r. r\<lparr>table_name := tableName pos,
                                total := calculateTotal user (cart pos),
                                service_fee := calculateServiceFee user (cart pos),
                                updated_at := now env\<rparr>) tabId db;
                       db2 = delete_order_specials tabId
                               (delete_order_shots tabId (delete_order_items tabId db1));
                       db3 = save_lines user tabId (cart pos) db2
                   in (None, db3,
                       setOpenTabs user db3 (pos\<lparr>cart := [], tableName := [], editingTabId := None\<rparr>))))
         | None \<Rightarrow>
             (case orderInsert env of
                Inl e \<Rightarrow> (Some PersistenceError, db, pos)
              | Inr newId \<Rightarrow>
                  (let db1 = insert_orders
                         \<lparr>order_id = newId,
                          table_name = tableName pos,
                          status = pending,
                          payment_method = None,
                          total = calculateTotal user (cart pos),
                          service_fee = calculateServiceFee user (cart pos),
                          created_at = now env,
                          updated_at = now env,
                          staff_id = map_option user_id user\<rparr> db;
                       db3 = save_lines user newId (cart pos) db1
                   in (None, db3,
                       setOpenTabs user db3 (pos\<lparr>cart := [], tableName := [], editingTabId := None\<rparr>))))))"

text \<open>
  The loop of \<^verbatim>\<open>completePayment\<close>, lines 686-722: the same rows, and for a line that is
  neither a shot nor a special the stock of the item is set to the quantity of the product
  held in the cart line less the line's quantity. On a product without a quantity the
  difference is \<^verbatim>\<open>NaN\<close>, which the INTEGER column refuses.
\<close>

fun pay_lines :: "User option \<Rightarrow> string \<Rightarrow> CartItem list \<Rightarrow> Store \<Rightarrow> Store" where
  "pay_lines user orderId [] db = db"
| "pay_lines user orderId (cartItem # rest) db =
     pay_lines user orderId rest
       (if isShot cartItem then insert_order_shots (line_row user orderId cartItem) db
        else if isSpecial cartItem then insert_order_specials (line_row user orderId cartItem) db
        else
          (let db1 = insert_order_items (line_row user orderId cartItem) db in
           case product_quantity (item cartItem) of
             Some stock \<Rightarrow>
               update_items (\<lambda>r. r\<lparr>item_quantity := stock - quantity cartItem\<rparr>)
                 (product_id (item cartItem)) db1
           | None \<Rightarrow> db1))"

text \<open>
  \<^verbatim>\<open>completePayment\<close>, lines 655-749. \<^verbatim>\<open>setTableName('Quick Sale')\<close> changes the state, not
  the \<^verbatim>\<open>tableName\<close> this call reads; a completed payment sets the name to the empty string
  afterwards. The button that calls \<^verbatim>\<open>completePayment\<close> is shown only while the order type
  is \<^verbatim>\<open>quick\<close> (line 1260); with the order type \<^verbatim>\<open>tab\<close> the function is \<^verbatim>\<open>saveAsTab\<close>.
\<close>

definition completePayment ::
  "User option \<Rightarrow> Env \<Rightarrow> Store \<Rightarrow> POS \<Rightarrow> error option \<times> Store \<times> POS" where
  "completePayment user env db pos =
     (if orderType pos = tab then saveAsTab user env db pos
      else
        (let pos1 = (if tableName pos = [] \<and> cart pos \<noteq> []
                     then pos\<lparr>tableName := ''Quick Sale''\<rparr> else pos)
         in case orderInsert env of
              Inl e \<Rightarrow> (Some PersistenceError, db, pos1)
            | Inr newId \<Rightarrow>
                (let db1 = insert_orders
                       \<lparr>order_id = newId,
                        table_name = (if tableName pos = [] then ''Quick Sale'' else tableName pos),
                        status = paid,
                        payment_method = Some (paymentMethod pos),
                        total = calculateTotal user (cart pos),
                        service_fee = calculateServiceFee user (cart pos),
                        created_at = now env,
                        updated_at = now env,
                        staff_id = map_option user_id user\<rparr> db;
                     db2 = pay_lines user newId (cart pos) db1;
                     db3 = (case editingTabId pos of
                              Some tabId \<Rightarrow>
                                delete_orders (cascade env) tabId
                                  (delete_order_shots tabId (delete_order_items tabId db2))
                            | None \<Rightarrow> db2)
                 in (None, db3,
                     setOpenTabs user db3
                       (pos1\<lparr>cart := [], tableName := [], editingTabId := None,
                             showPayment := False\<rparr>)))))"

text \<open>
  \<^verbatim>\<open>deleteTab(tabId)\<close>, lines 770-795; \<open>confirmed\<close> is the answer to the \<^verbatim>\<open>confirm\<close> dialog.
\<close>

definition deleteTab ::
  "User option \<Rightarrow> Env \<Rightarrow> bool \<Rightarrow> string \<Rightarrow> Store \<Rightarrow> POS \<Rightarrow> Store \<times> POS" where
  "deleteTab user env confirmed tabId db pos =
     (if \<not> confirmed then (db, pos)
      else
        (let db1 = delete_order_items tabId db;
             db2 = delete_orders (cascade env) tabId db1
         in (db2, setOpenTabs user db2 pos)))"

text \<open>Every paid order of the store has a table name.\<close>

definition paid_orders_named :: "Store \<Rightarrow> bool" where
  "paid_orders_named db \<longleftrightarrow>
     (\<forall>r \<in> set (orders db). status r = paid \<longrightarrow> table_name r \<noteq> [])"

text \<open>A cart line as the tuple of its product id, variant, quantity and unit price.\<close>

definition line_tuple :: "CartItem \<Rightarrow> string \<times> bool \<times> bool \<times> int \<times> rat" where
  "line_tuple ci = (product_id (item ci), isShot ci, isSpecial ci, quantity ci,
                    product_price (item ci))"

text \<open>
  \<open>line_priced db ci\<close>: the catalog of \<open>db\<close> has the product of the cart line \<open>ci\<close>, in
  the table of the line's variant, at the unit price of the line; a line is a shot or a
  special, not both. Nothing is asked of the other columns of the catalog row, such as
  the stock. The lines that \<^verbatim>\<open>addToCart\<close>, \<^verbatim>\<open>addShotToCart\<close> and \<^verbatim>\<open>addSpecialToCart\<close> make
  from the catalog are such lines until the price of the product changes.
\<close>

definition line_priced :: "Store \<Rightarrow> CartItem \<Rightarrow> bool" where
  "line_priced db ci \<longleftrightarrow>
     \<not> (isShot ci \<and> isSpecial ci) \<and>
     (if isShot ci then
        map_option shot_price (find (\<lambda>r. shot_id r = product_id (item ci)) (shots db))
      else if isSpecial ci then
        map_option special_price (find (\<lambda>r. special_id r = product_id (item ci)) (specials db))
      else
        map_option item_price (find (\<lambda>r. item_id r = product_id (item ci)) (items db)))
     = Some (product_price (item ci))"

text \<open>
  The store accepts the save of a tab under the id \<open>x\<close>: as a new order, for which the
  store makes an id that no order and no line has yet; or as the update of the one order
  with the id \<open>x\<close>, a pending order of the caller.
\<close>

definition new_tab_accepted :: "string \<Rightarrow> Env \<Rightarrow> Store \<Rightarrow> POS \<Rightarrow> bool" where
  "new_tab_accepted x env db pos \<longleftrightarrow>
     editingTabId pos = None \<and> orderInsert env = Inr x \<and>
     list_all (\<lambda>r. order_id r \<noteq> x) (orders db) \<and>
     lines_of x (order_items db) = [] \<and> lines_of x (order_shots db) = [] \<and>
     lines_of x (order_specials db) = []"

definition edited_tab_accepted :: "string \<Rightarrow> User \<Rightarrow> Env \<Rightarrow> Store \<Rightarrow> POS \<Rightarrow> bool" where
  "edited_tab_accepted x u env db pos \<longleftrightarrow>
     editingTabId pos = Some x \<and> updateError env = None \<and>
     list_ex (\<lambda>r. order_id r = x \<and> status r = pending \<and> staff_id r = Some (user_id u) \<and>
                  list_all (\<lambda>z. order_id z = x \<longrightarrow> z = r) (orders db)) (orders db)"

text \<open>
  What one cart line does to a row of \<^verbatim>\<open>items\<close> in the loop of \<^verbatim>\<open>completePayment\<close>.
\<close>

definition stock_step :: "Item \<Rightarrow> CartItem \<Rightarrow> Item" where
  "stock_step r ci =
     (if \<not> isShot ci \<and> \<not> isSpecial ci \<and> item_id r = product_id (item ci) then
        (case product_quantity (item ci) of
           Some stock \<Rightarrow> r\<lparr>item_quantity := stock - quantity ci\<rparr>
         | None \<Rightarrow> r)
      else r)"

section \<open>Example data\<close>

text \<open>
  The staff and the beer of \<^verbatim>\<open>DATABASE_SETUP.md\<close> (Scenario A has 5 beers in stock), a
  shot, a special, and cart lines of them.
\<close>

definition mary :: User where
  "mary = \<lparr>user_id = ''u-mary'', username = ''mary'', user_name = ''Mary Waitress'',
            pin = ''2222'', role = waitress\<rparr>"

definition john :: User where
  "john = \<lparr>user_id = ''u-john'', username = ''john'', user_name = ''John Bartender'',
            pin = ''1111'', role = bartender\<rparr>"

definition beer :: Item where
  "beer = \<lparr>item_id = ''beer-1'', item_name = ''Beer'', item_quantity = 5,
            item_barcode = Some ''123456793'', item_price = 9 / 2, item_category = ''Alcohol'',
            low_stock_threshold = 30\<rparr>"

definition hennessy :: Shot where
  "hennessy = \<lparr>shot_id = ''shot-1'', shot_name = ''Hennessy VSOP'', shot_price = 50\<rparr>"

definition wings :: Special where
  "wings = \<lparr>special_id = ''special-1'', special_name = ''Wings'', special_price = 12\<rparr>"

text \<open>
  The burger and the wine of \<^verbatim>\<open>DATABASE_SETUP.md\<close>. Their prices, 8.99 and 12.99, reach
  the point of sale as the doubles nearest to them.
\<close>

definition burger :: Item where
  "burger = \<lparr>item_id = ''burger-1'', item_name = ''Burger'', item_quantity = 50,
              item_barcode = Some ''123456791'', item_price = to_double 8.99,
              item_category = ''Food'', low_stock_threshold = 10\<rparr>"

definition wine :: Item where
  "wine = \<lparr>item_id = ''wine-1'', item_name = ''Wine'', item_quantity = 40,
            item_barcode = Some ''123456794'', item_price = to_double 12.99,
            item_category = ''Alcohol'', low_stock_threshold = 10\<rparr>"

definition burger_line :: "int \<Rightarrow> CartItem" where
  "burger_line n = \<lparr>item = ItemP burger, quantity = n, isShot = False, isSpecial = False\<rparr>"

definition wine_line :: "int \<Rightarrow> CartItem" where
  "wine_line n = \<lparr>item = ItemP wine, quantity = n, isShot = False, isSpecial = False\<rparr>"

definition beer_line :: "int \<Rightarrow> CartItem" where
  "beer_line n = \<lparr>item = ItemP beer, quantity = n, isShot = False, isSpecial = False\<rparr>"

definition hennessy_line :: "int \<Rightarrow> CartItem" where
  "hennessy_line n = \<lparr>item = ShotP hennessy, quantity = n, isShot = True, isSpecial = False\<rparr>"

definition wings_line :: "int \<Rightarrow> CartItem" where
  "wings_line n = \<lparr>item = SpecialP wings, quantity = n, isShot = False, isSpecial = True\<rparr>"

text \<open>
  A store whose only order is Mary's pending tab \<^verbatim>\<open>tab-1\<close>, with a line in each of the three
  tables; the state of the point of sale when the component is mounted; and the answers
  of a store that accepts every request, made with the cascade of \<^verbatim>\<open>DATABASE_SETUP.md\<close>
  (\<open>accepting\<close>) and made without it (\<open>uncascaded\<close>).
\<close>

definition tab_store :: Store where
  "tab_store =
     \<lparr>items = [beer], shots = [hennessy], specials = [wings],
      orders = [\<lparr>order_id = ''tab-1'', table_name = ''Table 4'', status = pending,
                 payment_method = None, total = 781 / 10, service_fee = 71 / 10,
                 created_at = 10, updated_at = 10, staff_id = Some ''u-mary''\<rparr>],
      order_items = [\<lparr>line_order_id = ''tab-1'', line_product_id = ''beer-1'',
                      line_staff_id = Some ''u-mary'', line_quantity = 2, price_at_time = 9 / 2\<rparr>],
      order_shots = [\<lparr>line_order_id = ''tab-1'', line_product_id = ''shot-1'',
                      line_staff_id = Some ''u-mary'', line_quantity = 1, price_at_time = 50\<rparr>],
      order_specials = [\<lparr>line_order_id = ''tab-1'', line_product_id = ''special-1'',
                         line_staff_id = Some ''u-mary'', line_quantity = 1, price_at_time = 12\<rparr>]\<rparr>"

definition mounted :: POS where
  "mounted = \<lparr>cart = [], tableName = [], editingTabId = None, orderType = quick,
               paymentMethod = cash, showPayment = False, showOpenTabs = False, openTabs = []\<rparr>"

definition accepting :: Env where
  "accepting = \<lparr>now = 20, updateError = None, orderInsert = Inr ''order-2'', cascade = True\<rparr>"


text \<open>
  The state while the tab is edited (one beer taken off, one shot added, the wings
  removed), and while it is closed out for payment.
\<close>

definition editing :: POS where
  "editing = mounted\<lparr>cart := [beer_line 1, hennessy_line 2], tableName := ''Table 4'',
                      editingTabId := Some ''tab-1'', orderType := tab\<rparr>"


text \<open>
  A store without orders in which, since the beer was put in the cart, another till has
  sold two beers and the price of the beer was raised to 5.00.
\<close>

definition till_store :: Store where
  "till_store =
     \<lparr>items = [beer\<lparr>item_quantity := 3, item_price := 5\<rparr>], shots = [hennessy],
      specials = [wings], orders = [], order_items = [], order_shots = [],
      order_specials = []\<rparr>"

text \<open>
  A quick sale of two beers with no table name, and the same cart about to be saved as a
  new tab; the cart line holds the beer as it was when it was added (5 in stock, 4.50).
\<close>

definition quick_sale :: POS where
  "quick_sale = mounted\<lparr>cart := [beer_line 2]\<rparr>"

definition new_tab :: POS where
  "new_tab = mounted\<lparr>cart := [beer_line 2], tableName := ''Table 4'', orderType := tab\<rparr>"

section \<open>The example data, field by field\<close>

text \<open>
  The fields of the example states and stores, the rows of the example cart lines, and the
  lines that go to each table.
\<close>

lemma editing_fields:
  "tableName editing = ''Table 4''" "cart editing = [beer_line 1, hennessy_line 2]"
  "editingTabId editing = Some ''tab-1''" "orderType editing = tab"
  by (simp_all add: editing_def mounted_def)


lemma accepting_fields:
  "now accepting = 20" "updateError accepting = None" "orderInsert accepting = Inr ''order-2''"
  "cascade accepting"
  by (simp_all add: accepting_def)


lemma quick_sale_fields:
  "orderType quick_sale = quick" "tableName quick_sale = []" "cart quick_sale = [beer_line 2]"
  "editingTabId quick_sale = None" "paymentMethod quick_sale = cash"
  by (simp_all add: quick_sale_def mounted_def)

lemma new_tab_fields:
  "orderType new_tab = tab" "tableName new_tab = ''Table 4''" "cart new_tab = [beer_line 2]"
  "editingTabId new_tab = None"
  by (simp_all add: new_tab_def mounted_def)

lemma till_store_fields:
  "items till_store = [beer\<lparr>item_quantity := 3, item_price := 5\<rparr>]" "shots till_store = [hennessy]"
  "specials till_store = [wings]" "orders till_store = []" "order_items till_store = []"
  "order_shots till_store = []" "order_specials till_store = []"
  by (simp_all add: till_store_def)


lemma example_lines:
  "item_lines [beer_line b, hennessy_line h, wings_line w] = [beer_line b]"
  "shot_lines [beer_line b, hennessy_line h, wings_line w] = [hennessy_line h]"
  "special_lines [beer_line b, hennessy_line h, wings_line w] = [wings_line w]"
  "item_lines [beer_line b, hennessy_line h] = [beer_line b]"
  "shot_lines [beer_line b, hennessy_line h] = [hennessy_line h]"
  "special_lines [beer_line b, hennessy_line h] = []"
  by (simp_all add: item_lines_def shot_lines_def special_lines_def beer_line_def
        hennessy_line_def wings_line_def)

lemma example_rows:
  "line_row (Some mary) x (beer_line n) =
     \<lparr>line_order_id = x, line_product_id = ''beer-1'', line_staff_id = Some ''u-mary'',
      line_quantity = n, price_at_time = 9 / 2\<rparr>"
  "line_row (Some mary) x (hennessy_line n) =
     \<lparr>line_order_id = x, line_product_id = ''shot-1'', line_staff_id = Some ''u-mary'',
      line_quantity = n, price_at_time = 50\<rparr>"
  "line_row (Some mary) x (wings_line n) =
     \<lparr>line_order_id = x, line_product_id = ''special-1'', line_staff_id = Some ''u-mary'',
      line_quantity = n, price_at_time = 12\<rparr>"
  by (simp_all add: line_row_def beer_line_def hennessy_line_def wings_line_def beer_def
        hennessy_def wings_def mary_def)

section \<open>The stock ceiling of a cart line\<close>

lemma findIndex_None: "findIndex p xs = None \<longleftrightarrow> (\<forall>x \<in> set xs. \<not> p x)"
  by (induction xs) auto

lemma findIndex_Some:
  "findIndex p xs = Some i \<Longrightarrow> i < length xs \<and> p (xs ! i)"
  by (induction xs arbitrary: i) (auto split: if_splits)

lemma filter_update_same:
  "i < length xs \<Longrightarrow> p y = p (xs ! i) \<Longrightarrow> length (filter p (xs[i := y])) = length (filter p xs)"
proof (induction xs arbitrary: i)
  case Nil
  then show ?case by simp
next
  case (Cons x xs)
  then show ?case by (cases i) auto
qed

lemma filter_map_filter_le:
  "(\<And>x y. x \<in> set xs \<Longrightarrow> f x = Some y \<Longrightarrow> p y \<Longrightarrow> p x) \<Longrightarrow>
   length (filter p (List.map_filter f xs)) \<le> length (filter p xs)"
proof (induction xs)
  case Nil
  then show ?case by (simp add: List.map_filter_simps)
next
  case (Cons x xs)
  then have "length (filter p (List.map_filter f xs)) \<le> length (filter p xs)" by auto
  with Cons.prems show ?case
    by (cases "f x") (auto simp: List.map_filter_simps)
qed

lemma addToCart_inv:
  assumes "cart_inv it cs"
  shows "cart_inv it (snd (addToCart it cs))"
proof (cases "item_quantity it \<le> 0")
  case True
  with assms show ?thesis by (simp add: addToCart_def)
next
  case pos: False
  show ?thesis
  proof (cases "findIndex (\<lambda>ci. product_id (item ci) = item_id it) cs")
    case None
    then have "\<forall>x \<in> set cs. \<not> line_of it x"
      by (simp add: findIndex_None line_of_def)
    then have "filter (line_of it) cs = []" by (simp add: filter_empty_conv)
    with assms pos None show ?thesis
      by (auto simp: addToCart_def cart_inv_def line_of_def)
  next
    case (Some i)
    from findIndex_Some[OF Some] have i: "i < length cs" and l: "line_of it (cs ! i)"
      by (simp_all add: line_of_def)
    from assms i l have snap: "item (cs ! i) = ItemP it" "\<not> isShot (cs ! i)" "\<not> isSpecial (cs ! i)"
      by (auto simp: cart_inv_def)
    show ?thesis
    proof (cases "quantity (cs ! i) < item_quantity it")
      case False
      with assms pos Some show ?thesis by (simp add: addToCart_def)
    next
      case True
      let ?y = "(cs ! i)\<lparr>quantity := quantity (cs ! i) + 1\<rparr>"
      have ly: "line_of it ?y = line_of it (cs ! i)" by (simp add: line_of_def)
      have len: "length (filter (line_of it) (cs[i := ?y])) = length (filter (line_of it) cs)"
        using filter_update_same[OF i, of "line_of it" ?y] ly by simp
      have "\<forall>ci \<in> set (cs[i := ?y]). line_of it ci \<longrightarrow>
              item ci = ItemP it \<and> \<not> isShot ci \<and> \<not> isSpecial ci \<and> quantity ci \<le> item_quantity it"
      proof
        fix ci assume "ci \<in> set (cs[i := ?y])"
        then have "ci = ?y \<or> ci \<in> set cs" using set_update_subset_insert by fastforce
        then show "line_of it ci \<longrightarrow>
              item ci = ItemP it \<and> \<not> isShot ci \<and> \<not> isSpecial ci \<and> quantity ci \<le> item_quantity it"
          using snap True assms by (auto simp: cart_inv_def)
      qed
      with len assms pos Some True show ?thesis
        by (simp add: addToCart_def cart_inv_def)
    qed
  qed
qed

lemma updateLine_line_of:
  "updateLine itemId change s sp ci = (e, Some y) \<Longrightarrow> item y = item ci \<and> isShot y = isShot ci \<and> isSpecial y = isSpecial ci"
  by (auto simp: updateLine_def Let_def split: if_splits option.splits)

lemma updateLine_quantity:
  "updateLine (item_id it) change False False ci = (e, Some y) \<Longrightarrow> item ci = ItemP it \<Longrightarrow>
   quantity ci \<le> item_quantity it \<Longrightarrow> quantity y \<le> item_quantity it"
  by (auto simp: updateLine_def Let_def split: if_splits option.splits)

lemma updateQuantity_inv:
  assumes "cart_inv it cs"
  shows "cart_inv it (snd (updateQuantity (item_id it) change False False cs))"
proof -
  let ?f = "updateLine (item_id it) change False False"
  let ?c = "List.map_filter snd (map ?f cs)"
  have mem: "\<And>y. y \<in> set ?c \<Longrightarrow> \<exists>ci \<in> set cs. \<exists>e. ?f ci = (e, Some y)"
    by (auto simp: List.map_filter_def) (metis prod.collapse)
  have a: "\<forall>y \<in> set ?c. line_of it y \<longrightarrow>
        item y = ItemP it \<and> \<not> isShot y \<and> \<not> isSpecial y \<and> quantity y \<le> item_quantity it"
  proof
    fix y assume "y \<in> set ?c"
    then obtain ci e where ci: "ci \<in> set cs" and f: "?f ci = (e, Some y)" using mem by blast
    from updateLine_line_of[OF f] have same: "item y = item ci" "isShot y = isShot ci" "isSpecial y = isSpecial ci"
      by simp_all
    show "line_of it y \<longrightarrow>
        item y = ItemP it \<and> \<not> isShot y \<and> \<not> isSpecial y \<and> quantity y \<le> item_quantity it"
    proof
      assume "line_of it y"
      with same have l: "line_of it ci" by (simp add: line_of_def)
      with assms ci have inv: "item ci = ItemP it" "\<not> isShot ci" "\<not> isSpecial ci" "quantity ci \<le> item_quantity it"
        by (auto simp: cart_inv_def)
      from updateLine_quantity[OF f inv(1) inv(4)] same inv
      show "item y = ItemP it \<and> \<not> isShot y \<and> \<not> isSpecial y \<and> quantity y \<le> item_quantity it"
        by simp
    qed
  qed
  have "?c = List.map_filter (snd \<circ> ?f) cs"
    by (simp add: List.map_filter_def filter_map comp_def)
  moreover have "length (filter (line_of it) (List.map_filter (snd \<circ> ?f) cs)) \<le> length (filter (line_of it) cs)"
  proof (rule filter_map_filter_le)
    fix x y assume "(snd \<circ> ?f) x = Some y" "line_of it y"
    then have "?f x = (fst (?f x), Some y)" by (metis comp_apply prod.collapse)
    from updateLine_line_of[OF this] \<open>line_of it y\<close> show "line_of it x" by (simp add: line_of_def)
  qed
  ultimately have b: "length (filter (line_of it) ?c) \<le> 1" using assms by (simp add: cart_inv_def)
  from a b show ?thesis by (simp add: updateQuantity_def cart_inv_def Let_def)
qed

lemma cart_step_inv: "cart_inv it cs \<Longrightarrow> cart_inv it (snd (cart_step it x cs))"
  by (cases x) (simp_all add: addToCart_inv updateQuantity_inv)

lemma cart_trace_inv:
  "cart_inv it cs \<Longrightarrow> c \<in> set (cart_trace it xs cs) \<Longrightarrow> cart_inv it c"
proof (induction xs arbitrary: cs)
  case Nil
  then show ?case by simp
next
  case (Cons x xs)
  then show ?case using cart_step_inv by auto
qed

lemma unique_line:
  assumes "cart_inv it cs" "ci \<in> set cs" "line_of it ci" "x \<in> set cs" "line_of it x"
  shows "x = ci"
proof -
  from assms have "length (filter (line_of it) cs) \<le> 1" by (simp add: cart_inv_def)
  moreover from assms have "ci \<in> set (filter (line_of it) cs)" "x \<in> set (filter (line_of it) cs)"
    by simp_all
  ultimately show ?thesis
    by (cases "filter (line_of it) cs") (auto split: if_splits)
qed

lemma addToCart_out_of_stock:
  "item_quantity it \<le> 0 \<Longrightarrow> addToCart it cs = (Some OutOfStock, cs)"
  by (simp add: addToCart_def)

lemma addToCart_insufficient:
  assumes inv: "cart_inv it cs" and ci: "ci \<in> set cs" "line_of it ci"
    and pos: "0 < item_quantity it" and over: "item_quantity it < quantity ci + 1"
  shows "addToCart it cs = (Some InsufficientStock, cs)"
proof -
  from ci have "\<not> (\<forall>x \<in> set cs. \<not> product_id (item x) = item_id it)"
    by (auto simp: line_of_def)
  then obtain i where i: "findIndex (\<lambda>x. product_id (item x) = item_id it) cs = Some i"
    using findIndex_None[of "\<lambda>x. product_id (item x) = item_id it" cs] by (cases "findIndex (\<lambda>x. product_id (item x) = item_id it) cs") auto
  from findIndex_Some[OF i] have "cs ! i \<in> set cs" "line_of it (cs ! i)"
    by (simp_all add: line_of_def)
  with unique_line[OF inv ci] have "cs ! i = ci" by blast
  with i pos over show ?thesis by (simp add: addToCart_def)
qed

lemma updateQuantity_insufficient:
  assumes inv: "cart_inv it cs" and ci: "ci \<in> set cs" "line_of it ci"
    and nonneg: "0 \<le> item_quantity it" and over: "item_quantity it < quantity ci + change"
  shows "updateQuantity (item_id it) change False False cs = (Some InsufficientStock, cs)"
proof -
  let ?f = "updateLine (item_id it) change False False"
  from inv ci have snap: "item ci = ItemP it" "\<not> isShot ci" "\<not> isSpecial ci"
    by (auto simp: cart_inv_def)
  with ci nonneg over have fci: "?f ci = (Some InsufficientStock, Some ci)"
    by (simp add: updateLine_def line_of_def Let_def)
  have other: "?f x = (None, Some x)" if "x \<in> set cs" "x \<noteq> ci" for x
  proof -
    from that unique_line[OF inv ci] have "\<not> line_of it x" by blast
    then show ?thesis by (simp add: updateLine_def line_of_def)
  qed
  have "snd (?f x) = Some x" if "x \<in> set cs" for x
    using that fci other by (cases "x = ci") auto
  then have "List.map_filter snd (map ?f cs) = cs"
    by (induction cs) (auto simp: List.map_filter_simps)
  moreover from ci fci have "list_ex (\<lambda>r. fst r = Some InsufficientStock) (map ?f cs)"
    by (auto simp: list_ex_iff intro!: bexI[of _ ci])
  ultimately show ?thesis by (simp add: updateQuantity_def Let_def)
qed

text \<open>
  While the cart line holds the item as the store has it, the ceiling holds. Let \<open>it\<close> be a
  stocked item and \<open>cs\<close> a cart whose line of \<open>it\<close>, if it has one, holds \<open>it\<close> itself within
  its stock (\<open>cart_inv\<close>; the empty cart is one). Then along every run of \<^verbatim>\<open>addToCart\<close> and
  \<^verbatim>\<open>updateQuantity\<close> calls for \<open>it\<close>, the quantity of the item's line is at most the stock at
  every point of the run; \<^verbatim>\<open>addToCart\<close> is refused with \<open>OutOfStock\<close> when the stock is not
  positive; and an add or a change that would take the line above the stock is refused
  with \<open>InsufficientStock\<close> and leaves the cart as it was.
\<close>

lemma cart_line_within_held_stock:
  assumes "cart_inv it cs"
  shows "(\<forall>c \<in> set (cart_trace it ops cs). \<forall>ci \<in> set c.
            line_of it ci \<longrightarrow> quantity ci \<le> item_quantity it) \<and>
         (item_quantity it \<le> 0 \<longrightarrow> addToCart it cs = (Some OutOfStock, cs)) \<and>
         (\<forall>ci \<in> set cs. line_of it ci \<and> 0 < item_quantity it \<and> item_quantity it < quantity ci + 1 \<longrightarrow>
            addToCart it cs = (Some InsufficientStock, cs)) \<and>
         (\<forall>ci \<in> set cs. \<forall>change.
            line_of it ci \<and> 0 \<le> item_quantity it \<and> item_quantity it < quantity ci + change \<longrightarrow>
            updateQuantity (item_id it) change False False cs = (Some InsufficientStock, cs))"
proof (intro conjI)
  show "\<forall>c \<in> set (cart_trace it ops cs). \<forall>ci \<in> set c.
            line_of it ci \<longrightarrow> quantity ci \<le> item_quantity it"
    using cart_trace_inv[OF assms] by (auto simp: cart_inv_def)
  show "item_quantity it \<le> 0 \<longrightarrow> addToCart it cs = (Some OutOfStock, cs)"
    by (simp add: addToCart_out_of_stock)
  show "\<forall>ci \<in> set cs. line_of it ci \<and> 0 < item_quantity it \<and> item_quantity it < quantity ci + 1 \<longrightarrow>
            addToCart it cs = (Some InsufficientStock, cs)"
    using addToCart_insufficient[OF assms] by blast
  show "\<forall>ci \<in> set cs. \<forall>change.
            line_of it ci \<and> 0 \<le> item_quantity it \<and> item_quantity it < quantity ci + change \<longrightarrow>
            updateQuantity (item_id it) change False False cs = (Some InsufficientStock, cs)"
    using updateQuantity_insufficient[OF assms] by blast
qed

text \<open>
  Scenario A: three beers are added, three more are refused and the line stays at 3; with
  5 in the cart a sixth is refused; an item without stock is refused.
\<close>

lemma scenario_A:
  "cart_inv beer [] \<and>
   map (map quantity) (cart_trace beer [AddItem, AddItem, AddItem, ChangeQuantity 3] []) =
     [[], [1], [2], [3], [3]] \<and>
   list_all (list_all (\<lambda>ci. quantity ci \<le> 5))
     (cart_trace beer [AddItem, AddItem, AddItem, ChangeQuantity 3] []) \<and>
   cart_inv beer [beer_line 3] \<and>
   updateQuantity ''beer-1'' 3 False False [beer_line 3] = (Some InsufficientStock, [beer_line 3]) \<and>
   cart_inv beer [beer_line 5] \<and>
   addToCart beer [beer_line 5] = (Some InsufficientStock, [beer_line 5]) \<and>
   addToCart (beer\<lparr>item_quantity := 0\<rparr>) [] = (Some OutOfStock, [])"
proof -
  let ?ops = "[AddItem, AddItem, AddItem, ChangeQuantity 3]"
  have inv0: "cart_inv beer []" and inv0': "cart_inv (beer\<lparr>item_quantity := 0\<rparr>) []"
    by (simp_all add: cart_inv_def)
  have inv3: "cart_inv beer [beer_line 3]" and inv5: "cart_inv beer [beer_line 5]"
    by (simp_all add: cart_inv_def line_of_def beer_def beer_line_def)
  have tr: "cart_trace beer ?ops [] = [[], [beer_line 1], [beer_line 2], [beer_line 3], [beer_line 3]]"
    by (simp add: addToCart_def updateQuantity_def updateLine_def List.map_filter_simps
          beer_def beer_line_def)
  have l: "line_of beer (beer_line n)" for n
    by (simp add: line_of_def beer_line_def)
  have q: "item_quantity beer = 5" "item_id beer = ''beer-1''" "quantity (beer_line n) = n" for n
    by (simp_all add: beer_def beer_line_def)
  from cart_line_within_held_stock[OF inv0, of ?ops]
  have "\<forall>c \<in> set (cart_trace beer ?ops []). \<forall>ci \<in> set c. line_of beer ci \<longrightarrow> quantity ci \<le> 5"
    by (simp only: q) blast
  then have a: "list_all (list_all (\<lambda>ci. quantity ci \<le> 5)) (cart_trace beer ?ops [])"
    unfolding tr using l by (simp add: q)
  from cart_line_within_held_stock[OF inv3, of "[]"] l[of 3]
  have b: "updateQuantity ''beer-1'' 3 False False [beer_line 3] = (Some InsufficientStock, [beer_line 3])"
    by (simp add: q)
  from cart_line_within_held_stock[OF inv5, of "[]"] l[of 5]
  have c: "addToCart beer [beer_line 5] = (Some InsufficientStock, [beer_line 5])"
    by (simp add: q)
  from cart_line_within_held_stock[OF inv0', of "[]"]
  have d: "addToCart (beer\<lparr>item_quantity := 0\<rparr>) [] = (Some OutOfStock, [])"
    by simp
  have e: "map (map quantity) (cart_trace beer ?ops []) = [[], [1], [2], [3], [3]]"
    unfolding tr by (simp add: q)
  from inv0 inv3 inv5 a b c d e show ?thesis by blast
qed

text \<open>
  C1. The ceiling of a cart line is not the live stock. \<^verbatim>\<open>addToCart\<close> compares the line with
  the quantity of the item it is given, which the item list has as the store has it (the
  list is reloaded on every change of \<^verbatim>\<open>items\<close>); \<^verbatim>\<open>updateQuantity\<close> compares it with the
  quantity of the item held in the cart line, which is the stock at the time the line was
  made. Three beers are put in the cart while the stock is 5. Two beers are then sold at
  another till, so the live stock is 3. The plus button of the line, \<^verbatim>\<open>updateQuantity\<close> by
  1, is not refused and takes the line to 4, above the live stock of 3; \<^verbatim>\<open>addToCart\<close> of
  the live item refuses the same step with \<open>InsufficientStock\<close>.
\<close>

theorem cart_line_exceeds_live_stock:
  "cart_trace beer [AddItem, AddItem, AddItem] [] =
     [[], [beer_line 1], [beer_line 2], [beer_line 3]] \<and>
   item_id (beer\<lparr>item_quantity := 3\<rparr>) = ''beer-1'' \<and>
   item_quantity (beer\<lparr>item_quantity := 3\<rparr>) = 3 \<and>
   cart_step (beer\<lparr>item_quantity := 3\<rparr>) (ChangeQuantity 1) [beer_line 3] =
     (None, [beer_line 4]) \<and>
   cart_trace (beer\<lparr>item_quantity := 3\<rparr>) [ChangeQuantity 1] [beer_line 3] =
     [[beer_line 3], [beer_line 4]] \<and>
   line_of (beer\<lparr>item_quantity := 3\<rparr>) (beer_line 4) \<and>
   quantity (beer_line 4) = 4 \<and>
   \<not> quantity (beer_line 4) \<le> item_quantity (beer\<lparr>item_quantity := 3\<rparr>) \<and>
   cart_step (beer\<lparr>item_quantity := 3\<rparr>) AddItem [beer_line 3] =
     (Some InsufficientStock, [beer_line 3])"
  by (simp add: addToCart_def updateQuantity_def updateLine_def List.map_filter_simps
        line_of_def beer_def beer_line_def)

section \<open>Rounding to a double\<close>

lemma binade_bounds:
  "0 < y \<Longrightarrow> y < 2 ^ Suc n \<Longrightarrow> 1 \<le> y * 2 ^ n \<Longrightarrow>
   2 powi (binade n y) \<le> y \<and> y < 2 powi (binade n y + 1)"
proof (induction n arbitrary: y)
  case 0
  then show ?case by simp
next
  case (Suc n)
  show ?case
  proof (cases "2 \<le> y")
    case True
    have p: "(1::rat) \<le> 2 ^ n" by simp
    have "2 * 1 \<le> y * 2 ^ n"
      using True p by (intro mult_mono) simp_all
    then have "0 < y / 2" "y / 2 < 2 ^ Suc n" "1 \<le> y / 2 * 2 ^ n"
      using Suc.prems True by simp_all
    from Suc.IH[OF this]
    have "2 powi (binade n (y / 2)) \<le> y / 2" "y / 2 < 2 powi (binade n (y / 2) + 1)"
      by simp_all
    then show ?thesis using True
      by (simp add: power_int_add field_simps)
  next
    case False
    show ?thesis
    proof (cases "y < 1")
      case True
      have p: "(1::rat) \<le> 2 ^ n" by simp
      have "y * 2 < 1 * 2" using True by simp
      also have "\<dots> \<le> 2 * 2 ^ n" using p by simp
      finally have "y * 2 < 2 ^ Suc n" by simp
      then have "0 < y * 2" "y * 2 < 2 ^ Suc n" "1 \<le> y * 2 * 2 ^ n"
        using Suc.prems True by (simp_all add: mult.assoc)
      from Suc.IH[OF this]
      have "2 powi (binade n (y * 2)) \<le> y * 2" "y * 2 < 2 powi (binade n (y * 2) + 1)"
        by simp_all
      then show ?thesis using True False
        by (simp add: power_int_add power_int_diff field_simps)
    next
      case False
      then show ?thesis using \<open>\<not> 2 \<le> y\<close> by simp
    qed
  qed
qed

lemma round_half_even_of_int: "round_half_even (of_int z) = z"
  by (simp add: round_half_even_def)

text \<open>A number with a significand of at most 53 bits is a double: rounding leaves it alone.\<close>

lemma to_double_significand:
  assumes k: "\<bar>k\<bar> < 2 ^ 53" and m: "m \<le> 2000"
  shows "to_double (of_int k / 2 ^ m) = of_int k / 2 ^ m"
proof (cases "k = 0")
  case True
  then show ?thesis by (simp add: to_double_def)
next
  case False
  define x :: rat where "x = of_int k / 2 ^ m"
  define e where "e = binade 2200 \<bar>x\<bar>"
  have x0: "x \<noteq> 0" using False by (simp add: x_def)
  have ax: "\<bar>x\<bar> = of_int \<bar>k\<bar> / 2 ^ m" by (simp add: x_def)
  have "1 \<le> \<bar>k\<bar>" using False by simp
  then have k1: "(1::rat) \<le> of_int \<bar>k\<bar>" by (simp only: of_int_1_le_iff)
  have "(of_int \<bar>k\<bar> :: rat) < of_int (2 ^ 53)" using k by (simp only: of_int_less_iff)
  then have k2: "(of_int \<bar>k\<bar> :: rat) < 2 ^ 53" by simp
  have up: "\<bar>x\<bar> < 2 ^ Suc 2200"
  proof -
    have "(of_int \<bar>k\<bar> :: rat) * 1 \<le> of_int \<bar>k\<bar> * 2 ^ m"
      by (intro mult_mono) simp_all
    then have "\<bar>x\<bar> \<le> of_int \<bar>k\<bar>"
      unfolding ax by (simp add: divide_le_eq)
    also have "\<dots> < 2 ^ 53" by (rule k2)
    also have "(2::rat) ^ 53 \<le> 2 ^ Suc 2200" by (rule power_increasing) simp_all
    finally show ?thesis .
  qed
  have down: "1 \<le> \<bar>x\<bar> * 2 ^ 2200"
  proof -
    have "\<bar>x\<bar> * 2 ^ 2200 = of_int \<bar>k\<bar> * 2 ^ (2200 - m)"
      using m by (simp add: ax power_diff)
    moreover have "(1::rat) * 1 \<le> of_int \<bar>k\<bar> * 2 ^ (2200 - m)"
      using k1 by (intro mult_mono) simp_all
    ultimately show ?thesis by simp
  qed
  have pos: "0 < \<bar>x\<bar>" using x0 by simp
  from binade_bounds[OF pos up down]
  have lo: "2 powi e \<le> \<bar>x\<bar>" and hi: "\<bar>x\<bar> < 2 powi (e + 1)"
    by (simp_all add: e_def)
  have "2 powi (e + int m) = 2 powi e * (2::rat) ^ m"
    by (simp add: power_int_add)
  also have "\<dots> \<le> \<bar>x\<bar> * 2 ^ m" using lo by simp
  also have "\<dots> = of_int \<bar>k\<bar>" by (simp add: ax)
  also have "\<dots> < 2 powi 53" using k2 by simp
  finally have "e + int m < 53"
    by (rule power_int_le_imp_less_exp[rotated]) simp_all
  then have n: "0 \<le> 52 - e - int m" by simp
  define n where "n = nat (52 - e - int m)"
  have "x / 2 powi (e - 52) = of_int k * (2 powi (52 - e) / 2 ^ m)"
    by (simp add: x_def power_int_diff field_simps)
  also have "2 powi (52 - e) / (2::rat) ^ m = 2 powi (52 - e - int m)"
    by (simp add: power_int_diff[of _ "52 - e" "int m"])
  also have "\<dots> = 2 ^ n" using n by (simp add: n_def power_int_def)
  finally have q: "x / 2 powi (e - 52) = of_int (k * 2 ^ n)" by simp
  have "to_double x = of_int (k * 2 ^ n) * 2 powi (e - 52)"
    using x0
    by (simp add: to_double_def Let_def e_def[symmetric] q round_half_even_of_int
          del: of_int_mult of_int_power)
  also have "\<dots> = x" using q[symmetric] by simp
  finally show ?thesis by (simp add: x_def)
qed

lemma to_double_dyadic:
  assumes d: "dyadic m x" and m: "m \<le> 2000" and b: "\<bar>x\<bar> * 2 ^ m < 2 ^ 53"
  shows "to_double x = x"
proof -
  define k where "k = \<lfloor>x * 2 ^ m\<rfloor>"
  have kx: "of_int k = x * 2 ^ m" using d by (simp add: dyadic_def k_def)
  then have x: "x = of_int k / 2 ^ m" by simp
  have "(of_int \<bar>k\<bar> :: rat) = \<bar>x\<bar> * 2 ^ m"
    using kx by (simp add: abs_mult)
  with b have "(of_int \<bar>k\<bar> :: rat) < of_int (2 ^ 53)" by simp
  then have "\<bar>k\<bar> < 2 ^ 53" by (simp only: of_int_less_iff)
  from to_double_significand[OF this m] show ?thesis by (simp add: x[symmetric])
qed

lemma dyadic_0: "dyadic m 0"
  by (simp add: dyadic_def)

lemma dyadic_Ints: "dyadic m x \<longleftrightarrow> x * 2 ^ m \<in> \<int>"
  by (auto simp: dyadic_def Ints_def)

lemma dyadic_add: "dyadic m x \<Longrightarrow> dyadic m y \<Longrightarrow> dyadic m (x + y)"
  by (simp add: dyadic_Ints distrib_right)

text \<open>
  Rounding moves a number by at most half a unit in the last place of its significand,
  which is at most 1 part in \<open>2 ^ 53\<close> of the number.
\<close>

lemma round_half_even_error: "\<bar>of_int (round_half_even r) - r\<bar> \<le> 1 / 2"
proof -
  have "of_int \<lfloor>r\<rfloor> \<le> r" "r < of_int \<lfloor>r\<rfloor> + 1" by linarith+
  then show ?thesis
    by (auto simp: round_half_even_def Let_def abs_le_iff)
qed

lemma round_half_even_nonneg: "0 \<le> r \<Longrightarrow> 0 \<le> round_half_even r"
  by (auto simp: round_half_even_def Let_def)

lemma to_double_nonneg: "0 \<le> x \<Longrightarrow> 0 \<le> to_double x"
  by (simp add: to_double_def Let_def round_half_even_nonneg)

lemma to_double_error:
  assumes "x = 0 \<or> (1 \<le> \<bar>x\<bar> * 2 ^ 2200 \<and> \<bar>x\<bar> < 2 ^ Suc 2200)"
  shows "\<bar>to_double x - x\<bar> \<le> \<bar>x\<bar> / 2 ^ 53"
proof (cases "x = 0")
  case True
  then show ?thesis by (simp add: to_double_def)
next
  case False
  with assms have down: "1 \<le> \<bar>x\<bar> * 2 ^ 2200" and up: "\<bar>x\<bar> < 2 ^ Suc 2200" by simp_all
  define e where "e = binade 2200 \<bar>x\<bar>"
  define ulp :: rat where "ulp = 2 powi (e - 52)"
  have pos: "0 < \<bar>x\<bar>" using False by simp
  from binade_bounds[OF pos up down] have lo: "2 powi e \<le> \<bar>x\<bar>" by (simp add: e_def)
  have u0: "0 < ulp" by (simp add: ulp_def)
  have "to_double x - x = (of_int (round_half_even (x / ulp)) - x / ulp) * ulp"
    using False u0 by (simp add: to_double_def Let_def e_def ulp_def left_diff_distrib)
  then have "\<bar>to_double x - x\<bar> = \<bar>of_int (round_half_even (x / ulp)) - x / ulp\<bar> * ulp"
    using u0 by (simp add: abs_mult)
  also have "\<dots> \<le> 1 / 2 * ulp"
    using u0 round_half_even_error[of "x / ulp"] by (intro mult_right_mono) simp_all
  also have "\<dots> = 2 powi e / 2 ^ 53"
    by (simp add: ulp_def power_int_diff)
  also have "\<dots> \<le> \<bar>x\<bar> / 2 ^ 53"
    using lo by (simp add: divide_right_mono)
  finally show ?thesis .
qed

lemma to_double_error_small:
  assumes lo: "1 / 2 ^ 20 \<le> x" and hi: "x \<le> 2 ^ 30"
  shows "\<bar>to_double x - x\<bar> \<le> x / 2 ^ 53"
proof -
  have x0: "0 < x" using lo by simp
  have "(1::rat) * 1 \<le> (x * 2 ^ 20) * 2 ^ 2180"
    using lo by (intro mult_mono) (simp_all add: field_simps)
  also have "\<dots> = x * 2 ^ 2200" by (simp add: mult.assoc flip: power_add)
  finally have d: "1 \<le> \<bar>x\<bar> * 2 ^ 2200" using x0 by simp
  have "(2::rat) ^ 30 < 2 ^ Suc 2200" by (rule power_strict_increasing) simp_all
  with hi have "\<bar>x\<bar> < 2 ^ Suc 2200" using x0 by simp
  with d have "x = 0 \<or> (1 \<le> \<bar>x\<bar> * 2 ^ 2200 \<and> \<bar>x\<bar> < 2 ^ Suc 2200)" by simp
  from to_double_error[OF this] x0 show ?thesis by simp
qed

lemma to_double_error_pos:
  assumes lo: "1 / 200 \<le> x" and hi: "x \<le> 2 ^ 30"
  shows "\<bar>to_double x - x\<bar> \<le> x / 2 ^ 53"
proof -
  from lo have "1 / 2 ^ 20 \<le> x" by simp
  from to_double_error_small[OF this hi] show ?thesis .
qed

section \<open>Pricing in double arithmetic\<close>

lemma subtotal_fold_exact:
  assumes "m \<le> 1000"
  shows "dyadic m a \<Longrightarrow> list_all (\<lambda>ci. dyadic m (line_amount ci)) cs \<Longrightarrow>
         (\<bar>a\<bar> + (\<Sum>ci\<leftarrow>cs. \<bar>line_amount ci\<bar>)) * 2 ^ m < 2 ^ 53 \<Longrightarrow>
         foldl (\<lambda>sum ci. to_double (sum + to_double (product_price (item ci) * of_int (quantity ci))))
           a cs
         = a + (\<Sum>ci\<leftarrow>cs. line_amount ci)"
proof (induction cs arbitrary: a)
  case Nil
  then show ?case by simp
next
  case (Cons c cs)
  let ?x = "line_amount c"
  have m: "m \<le> 2000" using assms by simp
  have dx: "dyadic m ?x" using Cons.prems(2) by simp
  have nn: "0 \<le> (\<Sum>ci\<leftarrow>cs. \<bar>line_amount ci\<bar>)" by (rule sum_list_nonneg) auto
  have bound: "(\<bar>a\<bar> + \<bar>?x\<bar> + (\<Sum>ci\<leftarrow>cs. \<bar>line_amount ci\<bar>)) * 2 ^ m < 2 ^ 53"
    using Cons.prems(3) by (simp add: add.assoc)
  have "\<bar>?x\<bar> * 2 ^ m \<le> (\<bar>a\<bar> + \<bar>?x\<bar> + (\<Sum>ci\<leftarrow>cs. \<bar>line_amount ci\<bar>)) * 2 ^ m"
    using nn by (intro mult_right_mono) simp_all
  from this bound have bx: "\<bar>?x\<bar> * 2 ^ m < 2 ^ 53" by (rule le_less_trans)
  have x: "to_double (product_price (item c) * of_int (quantity c)) = ?x"
    using to_double_dyadic[OF dx m bx] by (simp add: line_amount_def)
  have da: "dyadic m (a + ?x)" using Cons.prems(1) dx by (rule dyadic_add)
  have "\<bar>a + ?x\<bar> * 2 ^ m \<le> (\<bar>a\<bar> + \<bar>?x\<bar> + (\<Sum>ci\<leftarrow>cs. \<bar>line_amount ci\<bar>)) * 2 ^ m"
    using nn by (intro mult_right_mono) simp_all
  from this bound have ba: "\<bar>a + ?x\<bar> * 2 ^ m < 2 ^ 53" by (rule le_less_trans)
  have s: "to_double (a + ?x) = a + ?x" using da m ba by (rule to_double_dyadic)
  have "(\<bar>a + ?x\<bar> + (\<Sum>ci\<leftarrow>cs. \<bar>line_amount ci\<bar>)) * 2 ^ m
        \<le> (\<bar>a\<bar> + \<bar>?x\<bar> + (\<Sum>ci\<leftarrow>cs. \<bar>line_amount ci\<bar>)) * 2 ^ m"
    by (intro mult_right_mono) simp_all
  from this bound have b': "(\<bar>a + ?x\<bar> + (\<Sum>ci\<leftarrow>cs. \<bar>line_amount ci\<bar>)) * 2 ^ m < 2 ^ 53"
    by (rule le_less_trans)
  have l: "list_all (\<lambda>ci. dyadic m (line_amount ci)) cs" using Cons.prems(2) by simp
  from Cons.IH[OF da l b'] show ?case by (simp add: x s add.assoc)
qed

lemma exact_amounts_subtotal:
  assumes "exact_amounts m cs"
  shows "calculateSubtotal cs = (\<Sum>ci\<leftarrow>cs. line_amount ci)"
    and "dyadic m (calculateSubtotal cs)"
    and "\<bar>calculateSubtotal cs\<bar> * 2 ^ m < 2 ^ 53"
proof -
  from assms have m: "m \<le> 1000" and l: "list_all (\<lambda>ci. dyadic m (line_amount ci)) cs"
    and b: "(\<Sum>ci\<leftarrow>cs. \<bar>line_amount ci\<bar>) * 2 ^ m < 2 ^ 53"
    by (simp_all add: exact_amounts_def)
  from subtotal_fold_exact[OF m dyadic_0 l] b
  show s: "calculateSubtotal cs = (\<Sum>ci\<leftarrow>cs. line_amount ci)"
    by (simp add: calculateSubtotal_def)
  from l show "dyadic m (calculateSubtotal cs)" unfolding s
    by (induction cs) (simp_all add: dyadic_0 dyadic_add)
  have "\<bar>\<Sum>ci\<leftarrow>cs. line_amount ci\<bar> \<le> (\<Sum>ci\<leftarrow>cs. \<bar>line_amount ci\<bar>)"
    by (induction cs) simp_all
  then have "\<bar>\<Sum>ci\<leftarrow>cs. line_amount ci\<bar> * 2 ^ m \<le> (\<Sum>ci\<leftarrow>cs. \<bar>line_amount ci\<bar>) * 2 ^ m"
    by (intro mult_right_mono) simp_all
  from this b show "\<bar>calculateSubtotal cs\<bar> * 2 ^ m < 2 ^ 53" unfolding s
    by (rule le_less_trans)
qed

lemma exact_amounts_mset:
  assumes "mset cs' = mset cs" and "exact_amounts m cs"
  shows "exact_amounts m cs'"
    and "(\<Sum>ci\<leftarrow>cs'. line_amount ci) = (\<Sum>ci\<leftarrow>cs. line_amount ci)"
proof -
  have s: "set cs' = set cs" using assms(1) by (rule mset_eq_setD)
  from assms(1) have "mset (map (\<lambda>ci. \<bar>line_amount ci\<bar>) cs') = mset (map (\<lambda>ci. \<bar>line_amount ci\<bar>) cs)"
    by (metis mset_map)
  then have a: "(\<Sum>ci\<leftarrow>cs'. \<bar>line_amount ci\<bar>) = (\<Sum>ci\<leftarrow>cs. \<bar>line_amount ci\<bar>)"
    by (metis sum_mset_sum_list)
  from assms(2) show "exact_amounts m cs'"
    by (simp add: exact_amounts_def list_all_iff s a)
  from assms(1) have "mset (map line_amount cs') = mset (map line_amount cs)"
    by (metis mset_map)
  then show "(\<Sum>ci\<leftarrow>cs'. line_amount ci) = (\<Sum>ci\<leftarrow>cs. line_amount ci)"
    by (metis sum_mset_sum_list)
qed

text \<open>
  The subtotal of a cart of decimal prices. A line amount computed in doubles is off its
  decimal amount by at most 3 parts in \<open>2 ^ 53\<close>, and every addition adds an error of at
  most \<open>1 / 2 ^ 23\<close> to the running sum; after at most 1000 lines the subtotal is within
  half a cent of the decimal sum.
\<close>

lemma line_error:
  assumes l: "decimal_line ci" and b: "decimal_amount ci \<le> 10 ^ 8"
  shows "0 \<le> decimal_amount ci"
    and "0 \<le> to_double (product_price (item ci) * of_int (quantity ci))"
    and "\<bar>to_double (product_price (item ci) * of_int (quantity ci)) - decimal_amount ci\<bar>
           \<le> 3 * decimal_amount ci / 2 ^ 53"
proof -
  define C :: rat where "C = of_int (cents ci) / 100"
  define Q :: rat where "Q = of_int (quantity ci)"
  define p where "p = product_price (item ci)"
  define A where "A = decimal_amount ci"
  define a where "a = to_double (p * Q)"
  from l have q: "0 < quantity ci" and c: "0 \<le> cents ci" and pc: "p = to_double C"
    by (simp_all add: decimal_line_def C_def p_def)
  have Q1: "1 \<le> Q" using q by (simp add: Q_def)
  have C0: "0 \<le> C" using c by (simp add: C_def)
  have A: "A = C * Q" by (simp add: A_def decimal_amount_def C_def Q_def)
  have A0: "0 \<le> A" unfolding A using C0 Q1 by simp
  have CA: "C \<le> A"
  proof -
    have "C * 1 \<le> C * Q" using C0 Q1 by (intro mult_left_mono)
    then show ?thesis by (simp add: A)
  qed
  have AB: "A \<le> 10 ^ 8" using b by (simp add: A_def)
  have p0: "0 \<le> p" unfolding pc using C0 by (rule to_double_nonneg)
  have a0: "0 \<le> a" unfolding a_def using p0 Q1 by (intro to_double_nonneg) simp
  have err: "\<bar>a - A\<bar> \<le> 3 * A / 2 ^ 53"
  proof (cases "cents ci = 0")
    case True
    then have "C = 0" by (simp add: C_def)
    then have "p = 0" "A = 0" by (simp_all add: pc A to_double_def)
    then show ?thesis by (simp add: a_def to_double_def)
  next
    case False
    with c have "1 \<le> cents ci" by simp
    then have "(1::rat) \<le> of_int (cents ci)" by (simp only: of_int_1_le_iff)
    then have Clo: "1 / 100 \<le> C" by (simp add: C_def)
    have Chi: "C \<le> 2 ^ 30" using CA AB by simp
    from Clo have Clo': "1 / 200 \<le> C" by simp
    from to_double_error_pos[OF Clo' Chi] have pe: "\<bar>p - C\<bar> \<le> C / 2 ^ 53" by (simp add: pc)
    have ab: "p - C \<le> \<bar>p - C\<bar>" "C - p \<le> \<bar>p - C\<bar>" by simp_all
    have sm: "C / 2 ^ 53 \<le> C / 2" using C0 by (intro divide_left_mono) simp_all
    from ab(2) pe sm have plo: "C / 2 \<le> p" by linarith
    from ab(1) pe have phi: "p \<le> C + C / 2 ^ 53" by linarith
    have x_lo: "1 / 200 \<le> p * Q"
    proof -
      have "1 / 200 * 1 \<le> p * Q" using plo Clo Q1 by (intro mult_mono) simp_all
      then show ?thesis by simp
    qed
    have x_hi: "p * Q \<le> A + A / 2 ^ 53"
    proof -
      have "p * Q \<le> (C + C / 2 ^ 53) * Q" using phi Q1 by (intro mult_right_mono) simp_all
      then show ?thesis by (simp add: A distrib_right)
    qed
    have "p * Q \<le> 2 ^ 30" using x_hi AB A0 by simp
    from to_double_error_pos[OF x_lo this] have ae: "\<bar>a - p * Q\<bar> \<le> p * Q / 2 ^ 53"
      by (simp add: a_def)
    have s1: "p * Q / 2 ^ 53 \<le> (A + A / 2 ^ 53) / 2 ^ 53"
      using x_hi by (rule divide_right_mono) simp
    have s2: "(A + A / 2 ^ 53) / 2 ^ 53 \<le> 2 * A / 2 ^ 53" using A0 by simp
    from ae s1 s2 have ae': "\<bar>a - p * Q\<bar> \<le> 2 * A / 2 ^ 53" by linarith
    have "\<bar>p * Q - A\<bar> = \<bar>p - C\<bar> * Q" using Q1 by (simp add: A abs_mult flip: left_diff_distrib)
    also have "\<dots> \<le> C / 2 ^ 53 * Q" using pe Q1 by (intro mult_right_mono) simp_all
    also have "\<dots> = A / 2 ^ 53" by (simp add: A)
    finally have xe: "\<bar>p * Q - A\<bar> \<le> A / 2 ^ 53" .
    have "\<bar>a - A\<bar> \<le> \<bar>a - p * Q\<bar> + \<bar>p * Q - A\<bar>" by linarith
    with ae' xe show ?thesis by linarith
  qed
  show "0 \<le> decimal_amount ci" using A0 by (simp add: A_def)
  show "0 \<le> to_double (product_price (item ci) * of_int (quantity ci))"
    using a0 by (simp add: a_def p_def Q_def)
  show "\<bar>to_double (product_price (item ci) * of_int (quantity ci)) - decimal_amount ci\<bar>
           \<le> 3 * decimal_amount ci / 2 ^ 53"
    using err by (simp add: a_def p_def Q_def A_def)
qed

lemma decimal_amount_nonneg: "decimal_line ci \<Longrightarrow> 0 \<le> decimal_amount ci"
  by (simp add: decimal_line_def decimal_amount_def)

lemma decimal_amounts_nonneg:
  "list_all decimal_line cs \<Longrightarrow> 0 \<le> (\<Sum>ci\<leftarrow>cs. decimal_amount ci)"
  by (induction cs) (simp_all add: decimal_amount_nonneg)

lemma subtotal_fold_error:
  "list_all decimal_line cs \<Longrightarrow> k + length cs \<le> 1000 \<Longrightarrow> 0 \<le> t \<Longrightarrow> 0 \<le> S \<Longrightarrow>
   \<bar>S - of_int t / 100\<bar> \<le> of_nat k / 2 ^ 23 \<Longrightarrow> (t = 0 \<longrightarrow> S = 0) \<Longrightarrow>
   of_int t / 100 + (\<Sum>ci\<leftarrow>cs. decimal_amount ci) \<le> 10 ^ 8 \<Longrightarrow>
   0 \<le> foldl (\<lambda>sum ci. to_double (sum + to_double (product_price (item ci) * of_int (quantity ci))))
         S cs \<and>
   \<bar>foldl (\<lambda>sum ci. to_double (sum + to_double (product_price (item ci) * of_int (quantity ci))))
         S cs
      - (of_int t / 100 + (\<Sum>ci\<leftarrow>cs. decimal_amount ci))\<bar>
     \<le> of_nat (k + length cs) / 2 ^ 23"
proof (induction cs arbitrary: k t S)
  case Nil
  then show ?case by simp
next
  case (Cons c cs)
  define T :: rat where "T = of_int t / 100"
  define A where "A = decimal_amount c"
  define a where "a = to_double (product_price (item c) * of_int (quantity c))"
  define t' where "t' = t + cents c * quantity c"
  define S' where "S' = to_double (S + a)"
  have l: "decimal_line c" and ls: "list_all decimal_line cs" using Cons.prems(1) by simp_all
  have k: "Suc k + length cs \<le> 1000" using Cons.prems(2) by simp
  then have "k \<le> 999" by simp
  then have kr: "(of_nat k :: rat) \<le> 999" by (metis of_nat_le_iff of_nat_numeral)
  have T0: "0 \<le> T" using Cons.prems(3) by (simp add: T_def)
  have S0: "0 \<le> S" by (rule Cons.prems(4))
  have ST: "\<bar>S - T\<bar> \<le> of_nat k / 2 ^ 23" using Cons.prems(5) by (simp add: T_def)
  have r0: "0 \<le> (\<Sum>ci\<leftarrow>cs. decimal_amount ci)" using ls by (rule decimal_amounts_nonneg)
  have bnd: "T + A + (\<Sum>ci\<leftarrow>cs. decimal_amount ci) \<le> 10 ^ 8"
    using Cons.prems(7) by (simp add: T_def A_def add.assoc)
  have A0: "0 \<le> A" unfolding A_def using l by (rule decimal_amount_nonneg)
  have AB: "A \<le> 10 ^ 8" using bnd T0 r0 by linarith
  have TAB: "T + A \<le> 10 ^ 8" using bnd r0 by linarith
  have a0: "0 \<le> a" unfolding a_def using l AB[unfolded A_def] by (rule line_error(2))
  have ae: "\<bar>a - A\<bar> \<le> 3 * A / 2 ^ 53"
    unfolding a_def A_def using l AB[unfolded A_def] by (rule line_error(3))
  have T': "of_int t' / 100 = T + A"
    by (simp add: t'_def T_def A_def decimal_amount_def add_divide_distrib)
  have cq: "0 \<le> cents c * quantity c" using l by (simp add: decimal_line_def)
  have t'0: "0 \<le> t'" using Cons.prems(3) cq by (simp add: t'_def)
  have S'0: "0 \<le> S'" unfolding S'_def using S0 a0 by (intro to_double_nonneg) simp
  have main: "\<bar>S' - (T + A)\<bar> \<le> of_nat (Suc k) / 2 ^ 23 \<and> (t' = 0 \<longrightarrow> S' = 0)"
  proof (cases "t' = 0")
    case True
    with Cons.prems(3) cq have t: "t = 0" and z: "cents c * quantity c = 0"
      unfolding t'_def by linarith+
    from t Cons.prems(6) have "S = 0" by simp
    moreover from z have "A = 0" by (simp add: A_def decimal_amount_def)
    moreover from this ae have "a = 0" by simp
    moreover from t have "T = 0" by (simp add: T_def)
    ultimately show ?thesis using True by (simp add: S'_def to_double_def)
  next
    case False
    with t'0 have "1 \<le> t'" by simp
    then have "(1::rat) \<le> of_int t'" by (simp only: of_int_1_le_iff)
    then have "1 / 100 \<le> of_int t' / (100::rat)" by simp
    then have TA: "1 / 100 \<le> T + A" by (simp only: T')
    have ab1: "(S + a) - (T + A) \<le> \<bar>S - T\<bar> + \<bar>a - A\<bar>" by linarith
    have ab2: "(T + A) - (S + a) \<le> \<bar>S - T\<bar> + \<bar>a - A\<bar>" by linarith
    have e1: "\<bar>S - T\<bar> \<le> 999 / 2 ^ 23" using ST kr by simp
    have e2: "\<bar>a - A\<bar> \<le> 3 * 10 ^ 8 / 2 ^ 53" using ae AB by simp
    have ylo: "1 / 200 \<le> S + a" using TA ab2 e1 e2 by simp
    have yhi: "S + a \<le> 10 ^ 8 + 1" using TAB ab1 e1 e2 by simp
    then have yhi': "S + a \<le> 2 ^ 30" by simp
    from to_double_error_pos[OF ylo yhi'] have "\<bar>S' - (S + a)\<bar> \<le> (S + a) / 2 ^ 53"
      by (simp add: S'_def)
    moreover have "(S + a) / 2 ^ 53 \<le> (10 ^ 8 + 1) / 2 ^ 53"
      using yhi by (rule divide_right_mono) simp
    ultimately have e3: "\<bar>S' - (S + a)\<bar> \<le> (10 ^ 8 + 1) / 2 ^ 53" by linarith
    have "\<bar>S' - (T + A)\<bar> \<le> \<bar>S' - (S + a)\<bar> + \<bar>S - T\<bar> + \<bar>a - A\<bar>" by linarith
    with e3 ST e2 have "\<bar>S' - (T + A)\<bar> \<le> of_nat k / 2 ^ 23 + 1 / 2 ^ 23" by simp
    then show ?thesis using False by (simp add: add_divide_distrib)
  qed
  have b': "of_int t' / 100 + (\<Sum>ci\<leftarrow>cs. decimal_amount ci) \<le> 10 ^ 8"
    unfolding T' by (rule bnd)
  have e': "\<bar>S' - of_int t' / 100\<bar> \<le> of_nat (Suc k) / 2 ^ 23"
    unfolding T' using main by simp
  from Cons.IH[OF ls k t'0 S'0 e' main[THEN conjunct2] b']
  show ?case
    by (simp add: S'_def a_def T' T_def[symmetric] A_def[symmetric] add.assoc)
qed

lemma toFixed2_near:
  assumes "0 \<le> R" and "\<bar>R - of_int z / 100\<bar> < 1 / 200"
  shows "toFixed2 R = of_int z / 100"
proof -
  have "R - of_int z / 100 < 1 / 200" "of_int z / 100 - R < 1 / 200"
    using assms(2) by linarith+
  then have "of_int z \<le> R * 100 + 1 / 2" "R * 100 + 1 / 2 < of_int z + 1"
    by (simp_all add: field_simps)
  then have "\<lfloor>R * 100 + 1 / 2\<rfloor> = z" by (intro floor_unique)
  with assms(1) show ?thesis by (simp add: toFixed2_def)
qed

lemma decimal_amounts_cents:
  "(\<Sum>ci\<leftarrow>cs. decimal_amount ci) = of_int (\<Sum>ci\<leftarrow>cs. cents ci * quantity ci) / 100"
  by (induction cs) (simp_all add: decimal_amount_def add_divide_distrib)

lemma decimal_prices_subtotal:
  assumes "decimal_prices cs"
  shows "toFixed2 (calculateSubtotal cs) = (\<Sum>ci\<leftarrow>cs. decimal_amount ci)"
proof -
  from assms have n: "length cs \<le> 1000" and l: "list_all decimal_line cs"
    and b: "(\<Sum>ci\<leftarrow>cs. decimal_amount ci) \<le> 10 ^ 8"
    by (simp_all add: decimal_prices_def)
  have "0 \<le> calculateSubtotal cs \<and>
        \<bar>calculateSubtotal cs - (of_int 0 / 100 + (\<Sum>ci\<leftarrow>cs. decimal_amount ci))\<bar>
          \<le> of_nat (0 + length cs) / 2 ^ 23"
    unfolding calculateSubtotal_def using l n b
    by (intro subtotal_fold_error) simp_all
  then have p: "0 \<le> calculateSubtotal cs"
    and e: "\<bar>calculateSubtotal cs - (\<Sum>ci\<leftarrow>cs. decimal_amount ci)\<bar> \<le> of_nat (length cs) / 2 ^ 23"
    by simp_all
  have "(of_nat (length cs) :: rat) \<le> 1000" using n by (metis of_nat_le_iff of_nat_numeral)
  then have "(of_nat (length cs) :: rat) / 2 ^ 23 < 1 / 200" by simp
  with e have "\<bar>calculateSubtotal cs - (\<Sum>ci\<leftarrow>cs. decimal_amount ci)\<bar> < 1 / 200" by linarith
  then have "\<bar>calculateSubtotal cs - of_int (\<Sum>ci\<leftarrow>cs. cents ci * quantity ci) / 100\<bar> < 1 / 200"
    by (simp only: decimal_amounts_cents)
  from toFixed2_near[OF p this] show ?thesis by (simp only: decimal_amounts_cents)
qed

lemma decimal_prices_mset:
  assumes "mset cs' = mset cs" and "decimal_prices cs"
  shows "decimal_prices cs'"
    and "(\<Sum>ci\<leftarrow>cs'. decimal_amount ci) = (\<Sum>ci\<leftarrow>cs. decimal_amount ci)"
proof -
  have s: "set cs' = set cs" using assms(1) by (rule mset_eq_setD)
  have n: "length cs' = length cs" using assms(1) by (rule mset_eq_length)
  from assms(1) have "mset (map decimal_amount cs') = mset (map decimal_amount cs)"
    by (metis mset_map)
  then show a: "(\<Sum>ci\<leftarrow>cs'. decimal_amount ci) = (\<Sum>ci\<leftarrow>cs. decimal_amount ci)"
    by (metis sum_mset_sum_list)
  from assms(2) show "decimal_prices cs'"
    by (simp add: decimal_prices_def list_all_iff s n a)
qed

text \<open>
  C3, as the code has it. The subtotal, the service fee and the total are computed in
  double arithmetic: the service fee is the rounded product of the subtotal and the double
  nearest to 0.1 when the caller's role is \<open>waitress\<close> and 0 otherwise, and the total is the
  rounded sum of the subtotal and the service fee. For a cart of decimal prices the
  subtotal is, to two decimals, the sum over the lines of quantity times unit price in
  decimal arithmetic, and so the same to two decimals for every cart with the same lines
  in another order. When every line amount of the cart is a whole number of \<open>2 ^ m\<close>-ths
  and they come, in absolute value, to less than \<open>2 ^ 53\<close> of them, no step of the
  subtotal rounds: the subtotal is the sum over the lines of quantity times unit price,
  the total of a caller who is not a waitress is the subtotal, and the subtotal, the
  service fee and the total are the same for every cart with the same lines in another
  order.
\<close>

theorem pricing_in_doubles:
  "calculateServiceFee user cs =
     (if map_option role user = Some waitress
      then to_double (calculateSubtotal cs * to_double (1 / 10)) else 0) \<and>
   calculateTotal user cs = to_double (calculateSubtotal cs + calculateServiceFee user cs) \<and>
   (decimal_prices cs \<longrightarrow>
      toFixed2 (calculateSubtotal cs) = (\<Sum>ci\<leftarrow>cs. decimal_amount ci) \<and>
      (\<forall>cs'. mset cs' = mset cs \<longrightarrow>
         toFixed2 (calculateSubtotal cs') = toFixed2 (calculateSubtotal cs))) \<and>
   (exact_amounts m cs \<longrightarrow>
      calculateSubtotal cs = (\<Sum>ci\<leftarrow>cs. of_int (quantity ci) * product_price (item ci)) \<and>
      (map_option role user \<noteq> Some waitress \<longrightarrow> calculateTotal user cs = calculateSubtotal cs) \<and>
      (\<forall>cs'. mset cs' = mset cs \<longrightarrow>
         calculateSubtotal cs' = calculateSubtotal cs \<and>
         calculateServiceFee user cs' = calculateServiceFee user cs \<and>
         calculateTotal user cs' = calculateTotal user cs))"
proof (intro conjI allI impI)
  show "calculateServiceFee user cs =
     (if map_option role user = Some waitress
      then to_double (calculateSubtotal cs * to_double (1 / 10)) else 0)"
    by (simp add: calculateServiceFee_def)
  show "calculateTotal user cs = to_double (calculateSubtotal cs + calculateServiceFee user cs)"
    by (simp add: calculateTotal_def)
next
  assume d: "decimal_prices cs"
  then show "toFixed2 (calculateSubtotal cs) = (\<Sum>ci\<leftarrow>cs. decimal_amount ci)"
    by (rule decimal_prices_subtotal)
next
  fix cs' :: "CartItem list"
  assume d: "decimal_prices cs" and p: "mset cs' = mset cs"
  note d' = decimal_prices_mset[OF p d]
  show "toFixed2 (calculateSubtotal cs') = toFixed2 (calculateSubtotal cs)"
    unfolding decimal_prices_subtotal[OF d] decimal_prices_subtotal[OF d'(1)] by (rule d'(2))
next
  assume x: "exact_amounts m cs"
  note e = exact_amounts_subtotal[OF x]
  have m: "m \<le> 2000" using x by (simp add: exact_amounts_def)
  show "calculateSubtotal cs = (\<Sum>ci\<leftarrow>cs. of_int (quantity ci) * product_price (item ci))"
  proof -
    have "line_amount = (\<lambda>ci. of_int (quantity ci) * product_price (item ci))"
      by (rule ext) (simp add: line_amount_def mult.commute)
    then show ?thesis unfolding e(1) by simp
  qed
  show "calculateTotal user cs = calculateSubtotal cs" if "map_option role user \<noteq> Some waitress"
  proof -
    from that have "calculateServiceFee user cs = 0"
      by (simp only: calculateServiceFee_def if_False)
    then show ?thesis
      using to_double_dyadic[OF e(2) m e(3)] by (simp add: calculateTotal_def)
  qed
next
  fix cs' :: "CartItem list"
  assume x: "exact_amounts m cs" and p: "mset cs' = mset cs"
  note e' = exact_amounts_mset[OF p x]
  have s: "calculateSubtotal cs' = calculateSubtotal cs"
    unfolding exact_amounts_subtotal(1)[OF x] exact_amounts_subtotal(1)[OF e'(1)]
    by (rule e'(2))
  show "calculateSubtotal cs' = calculateSubtotal cs" by (rule s)
  show "calculateServiceFee user cs' = calculateServiceFee user cs"
    by (simp only: calculateServiceFee_def s)
  show "calculateTotal user cs' = calculateTotal user cs"
    by (simp only: calculateTotal_def calculateServiceFee_def s)
qed

text \<open>
  A burger, a beer and a wine at the prices of \<^verbatim>\<open>DATABASE_SETUP.md\<close>, a cart of decimal
  prices: in either order the subtotal is 26.48 to two decimals. A beer and a shot,
  amounts in halves: rung up by the waitress, by the bartender, and with the lines in the
  other order. The service fee of the waitress is the double nearest to 5.45 and her
  total the double nearest to 59.95.
\<close>

theorem pricing_in_doubles_witness:
  "decimal_prices [burger_line 1, beer_line 1, wine_line 1] \<and>
   (\<Sum>ci\<leftarrow>[burger_line 1, beer_line 1, wine_line 1]. decimal_amount ci) = 26.48 \<and>
   toFixed2 (calculateSubtotal [burger_line 1, beer_line 1, wine_line 1]) = 26.48 \<and>
   mset [beer_line 1, wine_line 1, burger_line 1] = mset [burger_line 1, beer_line 1, wine_line 1] \<and>
   toFixed2 (calculateSubtotal [beer_line 1, wine_line 1, burger_line 1]) = 26.48 \<and>
   exact_amounts 1 [beer_line 1, hennessy_line 1] \<and>
   calculateSubtotal [beer_line 1, hennessy_line 1] = 109 / 2 \<and>
   calculateServiceFee (Some mary) [beer_line 1, hennessy_line 1]
     = 6136154492292301 / 1125899906842624 \<and>
   calculateTotal (Some mary) [beer_line 1, hennessy_line 1]
     = 4218606213450957 / 70368744177664 \<and>
   calculateServiceFee (Some john) [beer_line 1, hennessy_line 1] = 0 \<and>
   calculateTotal (Some john) [beer_line 1, hennessy_line 1] = 109 / 2 \<and>
   mset [hennessy_line 1, beer_line 1] = mset [beer_line 1, hennessy_line 1] \<and>
   calculateSubtotal [hennessy_line 1, beer_line 1] = 109 / 2 \<and>
   calculateTotal (Some mary) [hennessy_line 1, beer_line 1]
     = 4218606213450957 / 70368744177664"
proof -
  let ?ds = "[burger_line 1, beer_line 1, wine_line 1]"
  let ?cs = "[beer_line 1, hennessy_line 1]"
  have dp: "decimal_prices ?ds" by code_simp
  have dv: "(\<Sum>ci\<leftarrow>?ds. decimal_amount ci) = 26.48" by code_simp
  have dm: "mset [beer_line 1, wine_line 1, burger_line 1] = mset ?ds" by simp
  note dt = pricing_in_doubles[of "Some mary" ?ds 1, THEN conjunct2, THEN conjunct2,
      THEN conjunct1, rule_format, OF dp]
  from dt[THEN conjunct1] dv have d1: "toFixed2 (calculateSubtotal ?ds) = 26.48"
    by (simp only:)
  from dt[THEN conjunct2, rule_format, OF dm] d1
  have d2: "toFixed2 (calculateSubtotal [beer_line 1, wine_line 1, burger_line 1]) = 26.48"
    by (simp only:)
  have h: "exact_amounts 1 ?cs"
    by (simp add: exact_amounts_def dyadic_def line_amount_def beer_line_def hennessy_line_def
          beer_def hennessy_def)
  have m: "mset [hennessy_line 1, beer_line 1] = mset ?cs" by simp
  have r: "map_option role (Some mary) = Some waitress" "map_option role (Some john) \<noteq> Some waitress"
    by (simp_all add: mary_def john_def)
  have v: "(\<Sum>ci\<leftarrow>?cs. of_int (quantity ci) * product_price (item ci)) = 109 / 2"
    by (simp add: beer_line_def hennessy_line_def beer_def hennessy_def)
  have f: "to_double (109 / 2 * to_double (1 / 10)) = 6136154492292301 / 1125899906842624"
    by code_simp
  have t: "to_double (109 / 2 + 6136154492292301 / 1125899906842624)
           = 4218606213450957 / 70368744177664"
    by code_simp
  note p0 = pricing_in_doubles[of "Some mary" ?cs 1]
  note q0 = pricing_in_doubles[of "Some john" ?cs 1]
  note p = p0[THEN conjunct2, THEN conjunct2, THEN conjunct2, rule_format, OF h]
  note q = q0[THEN conjunct2, THEN conjunct2, THEN conjunct2, rule_format, OF h]
  from p[THEN conjunct1] v have a1: "calculateSubtotal ?cs = 109 / 2" by (simp only:)
  from p0[THEN conjunct1] r(1)
  have "calculateServiceFee (Some mary) ?cs = to_double (calculateSubtotal ?cs * to_double (1 / 10))"
    by simp
  then have a2: "calculateServiceFee (Some mary) ?cs = 6136154492292301 / 1125899906842624"
    by (simp only: a1 f)
  from p0[THEN conjunct2, THEN conjunct1]
  have a3: "calculateTotal (Some mary) ?cs = 4218606213450957 / 70368744177664"
    by (simp only: a1 a2 t)
  from q0[THEN conjunct1] r(2)
  have c1: "calculateServiceFee (Some john) ?cs = 0" by (simp only: if_False)
  from q[THEN conjunct2, THEN conjunct1] r(2)
  have "calculateTotal (Some john) ?cs = calculateSubtotal ?cs" by (rule mp)
  then have c2: "calculateTotal (Some john) ?cs = 109 / 2" by (simp only: a1)
  from p[THEN conjunct2, THEN conjunct2, rule_format, OF m]
  have b: "calculateSubtotal [hennessy_line 1, beer_line 1] = calculateSubtotal ?cs"
    "calculateTotal (Some mary) [hennessy_line 1, beer_line 1] = calculateTotal (Some mary) ?cs"
    by (rule conjunct1, rule conjunct2[THEN conjunct2])
  from b a1 a3 have b': "calculateSubtotal [hennessy_line 1, beer_line 1] = 109 / 2"
    "calculateTotal (Some mary) [hennessy_line 1, beer_line 1] = 4218606213450957 / 70368744177664"
    by (simp_all only:)
  from dp dv d1 dm d2 h a1 a2 a3 c1 c2 m b' show ?thesis by (intro conjI)
qed

text \<open>
  A burger, a beer and a wine, one of each, at the prices of \<^verbatim>\<open>DATABASE_SETUP.md\<close>: 8.99,
  4.50 and 12.99. Rung up as burger, beer, wine the subtotal is the double nearest to
  26.48, which is the sum of the three prices; rung up as beer, wine, burger it is the
  next double, 26.480000000000004, because the sum of the beer and the wine is rounded
  upward. A cart of the beer and the wine alone has the subtotal 17.490000000000002, which
  is neither the sum of the two prices nor the double nearest to 17.49. To two decimals
  the subtotals of the two orders are the same.
\<close>

theorem subtotal_depends_on_line_order:
  "mset [beer_line 1, wine_line 1, burger_line 1] = mset [burger_line 1, beer_line 1, wine_line 1] \<and>
   calculateSubtotal [burger_line 1, beer_line 1, wine_line 1]
     = 7453457383298171 / 281474976710656 \<and>
   calculateSubtotal [beer_line 1, wine_line 1, burger_line 1]
     = 1863364345824543 / 70368744177664 \<and>
   calculateSubtotal [beer_line 1, wine_line 1, burger_line 1]
     \<noteq> calculateSubtotal [burger_line 1, beer_line 1, wine_line 1] \<and>
   (\<Sum>ci\<leftarrow>[beer_line 1, wine_line 1, burger_line 1].
       of_int (quantity ci) * product_price (item ci)) = 7453457383298171 / 281474976710656 \<and>
   calculateSubtotal [beer_line 1, wine_line 1, burger_line 1]
     \<noteq> (\<Sum>ci\<leftarrow>[beer_line 1, wine_line 1, burger_line 1].
          of_int (quantity ci) * product_price (item ci)) \<and>
   calculateSubtotal [beer_line 1, wine_line 1] = 2461498671334687 / 140737488355328 \<and>
   (\<Sum>ci\<leftarrow>[beer_line 1, wine_line 1]. of_int (quantity ci) * product_price (item ci))
     = 9845994685338747 / 562949953421312 \<and>
   to_double 17.49 = 4922997342669373 / 281474976710656 \<and>
   toFixed2 (calculateSubtotal [beer_line 1, wine_line 1, burger_line 1]) = 26.48 \<and>
   toFixed2 (calculateSubtotal [burger_line 1, beer_line 1, wine_line 1]) = 26.48"
proof -
  have m: "mset [beer_line 1, wine_line 1, burger_line 1]
           = mset [burger_line 1, beer_line 1, wine_line 1]" by simp
  have a: "calculateSubtotal [burger_line 1, beer_line 1, wine_line 1]
           = 7453457383298171 / 281474976710656" by code_simp
  have b: "calculateSubtotal [beer_line 1, wine_line 1, burger_line 1]
           = 1863364345824543 / 70368744177664" by code_simp
  have c: "(\<Sum>ci\<leftarrow>[beer_line 1, wine_line 1, burger_line 1].
              of_int (quantity ci) * product_price (item ci))
           = 7453457383298171 / 281474976710656" by code_simp
  have d: "calculateSubtotal [beer_line 1, wine_line 1] = 2461498671334687 / 140737488355328"
    by code_simp
  have e: "(\<Sum>ci\<leftarrow>[beer_line 1, wine_line 1]. of_int (quantity ci) * product_price (item ci))
           = 9845994685338747 / 562949953421312" by code_simp
  have f: "to_double 17.49 = 4922997342669373 / 281474976710656" by code_simp
  have g: "toFixed2 (1863364345824543 / 70368744177664) = 26.48"
    "toFixed2 (7453457383298171 / 281474976710656) = 26.48"
    by (simp_all add: toFixed2_def floor_eq_iff)
  have n: "(1863364345824543 / 70368744177664 :: rat) \<noteq> 7453457383298171 / 281474976710656"
    by simp
  show ?thesis unfolding a b c d e f using m g n by (intro conjI) (assumption | rule refl)+
qed

text \<open>
  The tax against the quotient in the rational numbers: dividing by the double nearest to
  1.15, rounding the quotient and rounding the difference each move the result by at most
  1 part in \<open>2 ^ 53\<close> of the total.
\<close>

lemma vat_error:
  assumes lo: "1 / 100 \<le> t" and hi: "t \<le> 10 ^ 8"
  shows "\<bar>to_double (t - to_double (t / to_double 1.15)) - (t - t / 1.15)\<bar> \<le> t / 2 ^ 51"
proof -
  define D :: rat where "D = 2589569785738035 / 2251799813685248"
  have D: "to_double 1.15 = D" unfolding D_def by code_simp
  define x1 where "x1 = t / D"
  define q where "q = to_double x1"
  define x2 where "x2 = t - q"
  have t0: "0 < t" using lo by simp
  have x1t: "x1 = t * (2251799813685248 / 2589569785738035)" by (simp add: x1_def D_def)
  have x1lo: "1 / 2 ^ 20 \<le> x1" and x1hi: "x1 \<le> 2 ^ 30" and x1le: "x1 \<le> 87 / 100 * t"
    and x1ge: "86 / 100 * t \<le> x1"
    using lo hi unfolding x1t by simp_all
  from to_double_error_small[OF x1lo x1hi] have qe: "\<bar>q - x1\<bar> \<le> x1 / 2 ^ 53" by (simp add: q_def)
  have s1: "x1 / 2 ^ 53 \<le> t / 2 ^ 53" using x1le t0 by simp
  have ab: "q - x1 \<le> \<bar>q - x1\<bar>" "x1 - q \<le> \<bar>q - x1\<bar>" by simp_all
  have s2: "t / 2 ^ 53 \<le> t / 100" using t0 by simp
  have x2hi: "x2 \<le> t" and x2lo: "t / 10 \<le> x2"
    using ab qe s1 s2 x1le x1ge t0 unfolding x2_def by linarith+
  have x2lo': "1 / 2 ^ 20 \<le> x2" using x2lo lo by simp
  have x2hi': "x2 \<le> 2 ^ 30" using x2hi hi by simp
  from to_double_error_small[OF x2lo' x2hi']
  have ve: "\<bar>to_double x2 - x2\<bar> \<le> x2 / 2 ^ 53" .
  have s3: "x2 / 2 ^ 53 \<le> t / 2 ^ 53" using x2hi by (rule divide_right_mono) simp
  have "x1 - t / 1.15 = t * (2251799813685248 / 2589569785738035 - 100 / 115)"
    by (simp add: x1t right_diff_distrib)
  then have "\<bar>x1 - t / 1.15\<bar> = t * \<bar>2251799813685248 / 2589569785738035 - 100 / 115 :: rat\<bar>"
    using t0 by (simp add: abs_mult)
  also have "\<dots> \<le> t * (1 / 2 ^ 53)"
    using t0 by (intro mult_left_mono) simp_all
  finally have de: "\<bar>x1 - t / 1.15\<bar> \<le> t / 2 ^ 53" by simp
  have "\<bar>to_double x2 - (t - t / 1.15)\<bar>
        \<le> \<bar>to_double x2 - x2\<bar> + \<bar>q - x1\<bar> + \<bar>x1 - t / 1.15\<bar>"
    unfolding x2_def by linarith
  with ve s3 qe s1 de have "\<bar>to_double x2 - (t - t / 1.15)\<bar> \<le> 3 * (t / 2 ^ 53)" by linarith
  also have "\<dots> \<le> t / 2 ^ 51" using t0 by simp
  finally show ?thesis unfolding x2_def q_def x1_def D[symmetric] .
qed

text \<open>
  C9. The tax reported is \<^verbatim>\<open>total - total / 1.15\<close>, in the arithmetic of the code, for every
  cart, and for a total between 0.01 and 100 000 000 it is within 1 part in \<open>2 ^ 51\<close> of
  the total of that difference in the rational numbers. For a cart of subtotal 100 rung
  up by a waitress the service fee is 10 and the total 110, without rounding error, and
  the tax is 14.347826086956516, which is 14.35 to two decimals.
\<close>

theorem vat_inclusive:
  "calculateVAT user cs
     = to_double (calculateTotal user cs - to_double (calculateTotal user cs / to_double 1.15)) \<and>
   (1 / 100 \<le> calculateTotal user cs \<and> calculateTotal user cs \<le> 10 ^ 8 \<longrightarrow>
      \<bar>calculateVAT user cs - (calculateTotal user cs - calculateTotal user cs / 1.15)\<bar>
        \<le> calculateTotal user cs / 2 ^ 51) \<and>
   (map_option role user = Some waitress \<and> calculateSubtotal cs = 100 \<longrightarrow>
      calculateServiceFee user cs = 10 \<and> calculateTotal user cs = 110 \<and>
      calculateVAT user cs = 1009638503418657 / 70368744177664 \<and>
      toFixed2 (calculateVAT user cs) = 14.35)"
proof (intro conjI impI; (elim conjE)?)
  show "calculateVAT user cs
     = to_double (calculateTotal user cs - to_double (calculateTotal user cs / to_double 1.15))"
    by (simp add: calculateVAT_def Let_def)
next
  assume "1 / 100 \<le> calculateTotal user cs" and "calculateTotal user cs \<le> 10 ^ 8"
  then show "\<bar>calculateVAT user cs - (calculateTotal user cs - calculateTotal user cs / 1.15)\<bar>
        \<le> calculateTotal user cs / 2 ^ 51"
    unfolding calculateVAT_def Let_def by (rule vat_error)
next
  assume w: "map_option role user = Some waitress" and s: "calculateSubtotal cs = 100"
  have f: "to_double (100 * to_double (1 / 10)) = 10" by code_simp
  have t: "to_double (100 + 10) = 110" by code_simp
  have v: "to_double (110 - to_double (110 / to_double 1.15)) = 1009638503418657 / 70368744177664"
    by code_simp
  have x: "toFixed2 (1009638503418657 / 70368744177664) = 14.35"
    by (simp add: toFixed2_def floor_eq_iff)
  show fee: "calculateServiceFee user cs = 10"
    unfolding calculateServiceFee_def s using w f by simp
  show tot: "calculateTotal user cs = 110"
    unfolding calculateTotal_def fee s by (rule t)
  show vat: "calculateVAT user cs = 1009638503418657 / 70368744177664"
    unfolding calculateVAT_def Let_def tot by (rule v)
  show "toFixed2 (calculateVAT user cs) = 14.35"
    unfolding vat by (rule x)
qed

text \<open>
  Scenario B: two shots at 50 rung up by the waitress.
\<close>

theorem vat_inclusive_witness:
  "map_option role (Some mary) = Some waitress \<and>
   calculateSubtotal [hennessy_line 2] = 100 \<and>
   calculateServiceFee (Some mary) [hennessy_line 2] = 10 \<and>
   calculateTotal (Some mary) [hennessy_line 2] = 110 \<and>
   calculateVAT (Some mary) [hennessy_line 2] = 1009638503418657 / 70368744177664 \<and>
   toFixed2 (calculateVAT (Some mary) [hennessy_line 2]) = 14.35 \<and>
   \<bar>calculateVAT (Some mary) [hennessy_line 2] - (110 - 110 / 1.15)\<bar> \<le> 110 / 2 ^ 51"
proof -
  have r: "map_option role (Some mary) = Some waitress" by (simp add: mary_def)
  have s: "calculateSubtotal [hennessy_line 2] = 100" by code_simp
  note t = vat_inclusive[of "Some mary" "[hennessy_line 2]"]
  from t[THEN conjunct2, THEN conjunct2, rule_format, OF conjI, OF r s]
  have a: "calculateServiceFee (Some mary) [hennessy_line 2] = 10"
    "calculateTotal (Some mary) [hennessy_line 2] = 110"
    "calculateVAT (Some mary) [hennessy_line 2] = 1009638503418657 / 70368744177664"
    "toFixed2 (calculateVAT (Some mary) [hennessy_line 2]) = 14.35"
    by (rule conjunct1, rule conjunct2[THEN conjunct1], rule conjunct2[THEN conjunct2, THEN conjunct1],
        rule conjunct2[THEN conjunct2, THEN conjunct2])
  have g: "1 / 100 \<le> calculateTotal (Some mary) [hennessy_line 2]"
    "calculateTotal (Some mary) [hennessy_line 2] \<le> 10 ^ 8"
    unfolding a(2) by simp_all
  from t[THEN conjunct2, THEN conjunct1, rule_format, OF conjI, OF g]
  have b: "\<bar>calculateVAT (Some mary) [hennessy_line 2] - (110 - 110 / 1.15)\<bar> \<le> 110 / 2 ^ 51"
    unfolding a(2) .
  from r s a b show ?thesis by (intro conjI)
qed

section \<open>Settlement and the store\<close>

lemma save_lines_tables:
  "order_items (save_lines user x cs db) = order_items db @ map (line_row user x) (item_lines cs) \<and>
   order_shots (save_lines user x cs db) = order_shots db @ map (line_row user x) (shot_lines cs) \<and>
   order_specials (save_lines user x cs db) = order_specials db @ map (line_row user x) (special_lines cs) \<and>
   orders (save_lines user x cs db) = orders db \<and>
   items (save_lines user x cs db) = items db \<and>
   shots (save_lines user x cs db) = shots db \<and>
   specials (save_lines user x cs db) = specials db"
  by (induction cs arbitrary: db)
     (simp_all add: item_lines_def shot_lines_def special_lines_def
        insert_order_items_def insert_order_shots_def insert_order_specials_def)

lemma pay_lines_tables:
  "order_items (pay_lines user x cs db) = order_items db @ map (line_row user x) (item_lines cs) \<and>
   order_shots (pay_lines user x cs db) = order_shots db @ map (line_row user x) (shot_lines cs) \<and>
   order_specials (pay_lines user x cs db) = order_specials db @ map (line_row user x) (special_lines cs) \<and>
   orders (pay_lines user x cs db) = orders db \<and>
   shots (pay_lines user x cs db) = shots db \<and>
   specials (pay_lines user x cs db) = specials db"
  by (induction cs arbitrary: db)
     (simp_all add: item_lines_def shot_lines_def special_lines_def Let_def
        insert_order_items_def insert_order_shots_def insert_order_specials_def update_items_def
        split: option.splits)

lemma lines_of_row [simp]:
  "lines_of x (map (line_row user x) cs) = map (line_row user x) cs"
  by (induction cs) (simp_all add: lines_of_def line_row_def)

lemma lines_of_row_other [simp]:
  "y \<noteq> x \<Longrightarrow> lines_of y (map (line_row user x) cs) = []"
  by (induction cs) (simp_all add: lines_of_def line_row_def)

lemma lines_of_delete [simp]:
  "lines_of x (delete_lines x rows) = []"
  "y \<noteq> x \<Longrightarrow> lines_of y (delete_lines x rows) = lines_of y rows"
  by (induction rows) (auto simp: lines_of_def delete_lines_def)

lemma lines_of_append [simp]: "lines_of x (rs @ rs') = lines_of x rs @ lines_of x rs'"
  by (simp add: lines_of_def)

text \<open>
  C8. \<^verbatim>\<open>saveAsTab\<close> with an empty table name or an empty cart is refused with
  \<open>ValidationError\<close>; the store, and with it every order and order line, is as before, and
  so is the state.
\<close>

theorem saveAsTab_validation:
  "tableName pos = [] \<or> cart pos = [] \<Longrightarrow>
   saveAsTab user env db pos = (Some ValidationError, db, pos)"
  by (simp add: saveAsTab_def)

text \<open>
  Scenario D: a cart without a table name, and a table name without a cart.
\<close>

theorem saveAsTab_validation_witness:
  "tableName (mounted\<lparr>cart := [beer_line 1]\<rparr>) = [] \<and>
   saveAsTab (Some mary) accepting tab_store (mounted\<lparr>cart := [beer_line 1]\<rparr>) =
     (Some ValidationError, tab_store, mounted\<lparr>cart := [beer_line 1]\<rparr>) \<and>
   cart (mounted\<lparr>tableName := ''Table 4''\<rparr>) = [] \<and>
   saveAsTab (Some mary) accepting tab_store (mounted\<lparr>tableName := ''Table 4''\<rparr>) =
     (Some ValidationError, tab_store, mounted\<lparr>tableName := ''Table 4''\<rparr>)"
proof -
  have a: "tableName (mounted\<lparr>cart := [beer_line 1]\<rparr>) = []"
    and b: "cart (mounted\<lparr>tableName := ''Table 4''\<rparr>) = []"
    by (simp_all add: mounted_def)
  from a have a': "tableName (mounted\<lparr>cart := [beer_line 1]\<rparr>) = [] \<or> cart (mounted\<lparr>cart := [beer_line 1]\<rparr>) = []" ..
  from b have b': "tableName (mounted\<lparr>tableName := ''Table 4''\<rparr>) = [] \<or> cart (mounted\<lparr>tableName := ''Table 4''\<rparr>) = []" ..
  from saveAsTab_validation[OF a'] saveAsTab_validation[OF b'] a b show ?thesis by blast
qed

lemma cart_lines_partition:
  "mset (item_lines cs) + mset (shot_lines cs) + mset (special_lines cs) = mset cs"
  by (induction cs) (auto simp: item_lines_def shot_lines_def special_lines_def)

lemma line_row_staff:
  "list_all (\<lambda>r. line_staff_id r = map_option user_id user) (map (line_row user x) cs)"
  by (simp add: list_all_iff line_row_def)

text \<open>
  C4. \<^verbatim>\<open>saveAsTab\<close> on a reopened tab (named, with a cart that is not empty, the update of
  the order accepted) leaves as the lines of that order, in each of the three tables,
  exactly the rows of the cart lines that belong there, in the order of the cart: the
  lines the order had are gone, the three tables together hold one row for every cart
  line, every row records the caller, and the lines of every other order are as before.
\<close>

theorem saveAsTab_replaces_lines:
  assumes "tableName pos \<noteq> []" and "cart pos \<noteq> []"
    and "editingTabId pos = Some tabId" and "updateError env = None"
  shows "fst (saveAsTab user env db pos) = None \<and>
    lines_of tabId (order_items (fst (snd (saveAsTab user env db pos)))) =
      map (line_row user tabId) (item_lines (cart pos)) \<and>
    lines_of tabId (order_shots (fst (snd (saveAsTab user env db pos)))) =
      map (line_row user tabId) (shot_lines (cart pos)) \<and>
    lines_of tabId (order_specials (fst (snd (saveAsTab user env db pos)))) =
      map (line_row user tabId) (special_lines (cart pos)) \<and>
    mset (lines_of tabId (order_items (fst (snd (saveAsTab user env db pos)))) @
          lines_of tabId (order_shots (fst (snd (saveAsTab user env db pos)))) @
          lines_of tabId (order_specials (fst (snd (saveAsTab user env db pos))))) =
      mset (map (line_row user tabId) (cart pos)) \<and>
    list_all (\<lambda>r. line_staff_id r = map_option user_id user)
      (lines_of tabId (order_items (fst (snd (saveAsTab user env db pos)))) @
       lines_of tabId (order_shots (fst (snd (saveAsTab user env db pos)))) @
       lines_of tabId (order_specials (fst (snd (saveAsTab user env db pos))))) \<and>
    (\<forall>y. y \<noteq> tabId \<longrightarrow>
       lines_of y (order_items (fst (snd (saveAsTab user env db pos)))) = lines_of y (order_items db) \<and>
       lines_of y (order_shots (fst (snd (saveAsTab user env db pos)))) = lines_of y (order_shots db) \<and>
       lines_of y (order_specials (fst (snd (saveAsTab user env db pos)))) = lines_of y (order_specials db))"
proof -
  let ?db = "fst (snd (saveAsTab user env db pos))"
  from assms have ok: "fst (saveAsTab user env db pos) = None"
    by (simp add: saveAsTab_def Let_def)
  from assms have i: "order_items ?db =
      delete_lines tabId (order_items db) @ map (line_row user tabId) (item_lines (cart pos))"
    and s: "order_shots ?db =
      delete_lines tabId (order_shots db) @ map (line_row user tabId) (shot_lines (cart pos))"
    and sp: "order_specials ?db =
      delete_lines tabId (order_specials db) @ map (line_row user tabId) (special_lines (cart pos))"
    by (simp_all add: saveAsTab_def Let_def save_lines_tables delete_order_items_def
          delete_order_shots_def delete_order_specials_def update_orders_def)
  have m: "mset (map (line_row user tabId) (item_lines (cart pos)) @
                 map (line_row user tabId) (shot_lines (cart pos)) @
                 map (line_row user tabId) (special_lines (cart pos))) =
           mset (map (line_row user tabId) (cart pos))"
    using cart_lines_partition[of "cart pos"]
    by (metis (no_types, lifting) add.assoc image_mset_union mset_append mset_map)
  have st: "list_all (\<lambda>r. line_staff_id r = map_option user_id user)
          (map (line_row user tabId) (item_lines (cart pos)) @
           map (line_row user tabId) (shot_lines (cart pos)) @
           map (line_row user tabId) (special_lines (cart pos)))"
    using line_row_staff by simp
  from ok m st show ?thesis by (simp add: i s sp)
qed

text \<open>
  Saving the edited tab: its two beers, one shot and one special become one beer and two
  shots.
\<close>

theorem saveAsTab_replaces_lines_witness:
  "tableName editing \<noteq> [] \<and> cart editing \<noteq> [] \<and> editingTabId editing = Some ''tab-1'' \<and>
   updateError accepting = None \<and>
   fst (saveAsTab (Some mary) accepting tab_store editing) = None \<and>
   lines_of ''tab-1'' (order_items (fst (snd (saveAsTab (Some mary) accepting tab_store editing)))) =
     [\<lparr>line_order_id = ''tab-1'', line_product_id = ''beer-1'', line_staff_id = Some ''u-mary'',
       line_quantity = 1, price_at_time = 9 / 2\<rparr>] \<and>
   lines_of ''tab-1'' (order_shots (fst (snd (saveAsTab (Some mary) accepting tab_store editing)))) =
     [\<lparr>line_order_id = ''tab-1'', line_product_id = ''shot-1'', line_staff_id = Some ''u-mary'',
       line_quantity = 2, price_at_time = 50\<rparr>] \<and>
   lines_of ''tab-1'' (order_specials (fst (snd (saveAsTab (Some mary) accepting tab_store editing)))) =
     []"
proof -
  have h: "tableName editing \<noteq> []" "cart editing \<noteq> []" "editingTabId editing = Some ''tab-1''"
    "updateError accepting = None"
    by (simp_all add: editing_fields accepting_fields)
  note t = saveAsTab_replaces_lines[OF h, of "Some mary" tab_store]
  from t[THEN conjunct1]
  have a: "fst (saveAsTab (Some mary) accepting tab_store editing) = None" .
  from t[THEN conjunct2, THEN conjunct1]
  have b: "lines_of ''tab-1'' (order_items (fst (snd (saveAsTab (Some mary) accepting tab_store editing)))) =
     [\<lparr>line_order_id = ''tab-1'', line_product_id = ''beer-1'', line_staff_id = Some ''u-mary'',
       line_quantity = 1, price_at_time = 9 / 2\<rparr>]"
    by (simp add: editing_fields example_lines example_rows)
  from t[THEN conjunct2, THEN conjunct2, THEN conjunct1]
  have c: "lines_of ''tab-1'' (order_shots (fst (snd (saveAsTab (Some mary) accepting tab_store editing)))) =
     [\<lparr>line_order_id = ''tab-1'', line_product_id = ''shot-1'', line_staff_id = Some ''u-mary'',
       line_quantity = 2, price_at_time = 50\<rparr>]"
    by (simp add: editing_fields example_lines example_rows)
  from t[THEN conjunct2, THEN conjunct2, THEN conjunct2, THEN conjunct1]
  have d: "lines_of ''tab-1'' (order_specials (fst (snd (saveAsTab (Some mary) accepting tab_store editing)))) = []"
    by (simp add: editing_fields example_lines)
  from h a b c d show ?thesis by blast
qed

text \<open>
  A new tab: when the store accepts the order under a new id, the rows of the cart lines
  are added under that id.
\<close>

lemma saveAsTab_new_tab_lines:
  assumes "tableName pos \<noteq> []" and "cart pos \<noteq> []"
    and "editingTabId pos = None" and "orderInsert env = Inr newId"
  shows "fst (saveAsTab user env db pos) = None \<and>
    lines_of newId (order_items (fst (snd (saveAsTab user env db pos)))) =
      lines_of newId (order_items db) @ map (line_row user newId) (item_lines (cart pos)) \<and>
    lines_of newId (order_shots (fst (snd (saveAsTab user env db pos)))) =
      lines_of newId (order_shots db) @ map (line_row user newId) (shot_lines (cart pos)) \<and>
    lines_of newId (order_specials (fst (snd (saveAsTab user env db pos)))) =
      lines_of newId (order_specials db) @ map (line_row user newId) (special_lines (cart pos))"
  using assms by (simp add: saveAsTab_def Let_def save_lines_tables insert_orders_def)

text \<open>
  What a confirmed \<^verbatim>\<open>deleteTab\<close> leaves. The order and its rows in \<^verbatim>\<open>order_items\<close> are gone
  by the two requests of the code. Its rows in \<^verbatim>\<open>order_shots\<close> and \<^verbatim>\<open>order_specials\<close>, for
  which the code makes no request, are gone only if the store cascades. Every other order
  and its lines are as before.
\<close>

lemma deleteTab_tables:
  "lines_of tabId (order_items (fst (deleteTab user env True tabId db pos))) = [] \<and>
   lines_of tabId (order_shots (fst (deleteTab user env True tabId db pos))) =
     (if cascade env then [] else lines_of tabId (order_shots db)) \<and>
   lines_of tabId (order_specials (fst (deleteTab user env True tabId db pos))) =
     (if cascade env then [] else lines_of tabId (order_specials db)) \<and>
   filter (\<lambda>r. order_id r = tabId) (orders (fst (deleteTab user env True tabId db pos))) = [] \<and>
   (\<forall>y. y \<noteq> tabId \<longrightarrow>
      lines_of y (order_items (fst (deleteTab user env True tabId db pos))) =
        lines_of y (order_items db) \<and>
      lines_of y (order_shots (fst (deleteTab user env True tabId db pos))) =
        lines_of y (order_shots db) \<and>
      lines_of y (order_specials (fst (deleteTab user env True tabId db pos))) =
        lines_of y (order_specials db) \<and>
      filter (\<lambda>r. order_id r = y) (orders (fst (deleteTab user env True tabId db pos))) =
        filter (\<lambda>r. order_id r = y) (orders db))"
proof -
  have o: "filter (\<lambda>r. order_id r \<noteq> tabId \<and> order_id r = y) rs =
       (if y = tabId then [] else filter (\<lambda>r. order_id r = y) rs)" for y and rs :: "Order list"
    by (induction rs) auto
  show ?thesis
    by (simp add: deleteTab_def Let_def delete_order_items_def delete_orders_def
          delete_orders_row_def on_delete_cascade_def o)
qed

text \<open>
  In a store with the cascade the result of \<^verbatim>\<open>deleteTab\<close> is the result of its requests in
  a store without it, with the cascade of the store on top.
\<close>

lemma deleteTab_cascade:
  "fst (deleteTab user (env\<lparr>cascade := True\<rparr>) True tabId db pos) =
     on_delete_cascade tabId (fst (deleteTab user (env\<lparr>cascade := False\<rparr>) True tabId db pos))"
  by (simp add: deleteTab_def Let_def delete_orders_def)





lemma paid_orders_named_saveAsTab:
  assumes "paid_orders_named db"
  shows "paid_orders_named (fst (snd (saveAsTab user env db pos)))"
proof (cases "tableName pos = [] \<or> cart pos = []")
  case True
  with assms show ?thesis by (simp add: saveAsTab_def)
next
  case False
  with assms show ?thesis
    by (auto simp: saveAsTab_def Let_def paid_orders_named_def save_lines_tables
          delete_order_items_def delete_order_shots_def delete_order_specials_def
          update_orders_def insert_orders_def
          split: option.splits sum.splits)
qed

text \<open>
  C10. \<^verbatim>\<open>completePayment\<close> of a quick sale with an empty table name and a cart that is not
  empty is not refused: when the store accepts the order, it is persisted as a paid order
  named \<^verbatim>\<open>Quick Sale\<close>. And whatever the state, if every paid order of the store has a
  table name before \<^verbatim>\<open>completePayment\<close>, every paid order has one after it.
\<close>

theorem completePayment_quick_sale_name:
  "(orderType pos = quick \<and> tableName pos = [] \<and> cart pos \<noteq> [] \<and>
    orderInsert env = Inr newId \<and> editingTabId pos \<noteq> Some newId \<longrightarrow>
      fst (completePayment user env db pos) = None \<and>
      \<lparr>order_id = newId, table_name = ''Quick Sale'', status = paid,
       payment_method = Some (paymentMethod pos),
       total = calculateTotal user (cart pos),
       service_fee = calculateServiceFee user (cart pos),
       created_at = now env, updated_at = now env,
       staff_id = map_option user_id user\<rparr>
        \<in> set (orders (fst (snd (completePayment user env db pos))))) \<and>
   (paid_orders_named db \<longrightarrow> paid_orders_named (fst (snd (completePayment user env db pos))))"
proof (intro conjI impI)
  assume a: "orderType pos = quick \<and> tableName pos = [] \<and> cart pos \<noteq> [] \<and>
    orderInsert env = Inr newId \<and> editingTabId pos \<noteq> Some newId"
  then show "fst (completePayment user env db pos) = None"
    by (simp add: completePayment_def Let_def)
  from a show "\<lparr>order_id = newId, table_name = ''Quick Sale'', status = paid,
       payment_method = Some (paymentMethod pos),
       total = calculateTotal user (cart pos),
       service_fee = calculateServiceFee user (cart pos),
       created_at = now env, updated_at = now env,
       staff_id = map_option user_id user\<rparr>
        \<in> set (orders (fst (snd (completePayment user env db pos))))"
    by (cases "editingTabId pos")
       (auto simp: completePayment_def Let_def pay_lines_tables insert_orders_def
          delete_order_items_def delete_order_shots_def delete_orders_def
          delete_orders_row_def on_delete_cascade_def)
next
  assume inv: "paid_orders_named db"
  show "paid_orders_named (fst (snd (completePayment user env db pos)))"
  proof (cases "orderType pos = tab")
    case True
    with paid_orders_named_saveAsTab[OF inv] show ?thesis by (simp add: completePayment_def)
  next
    case False
    with inv show ?thesis
      by (auto simp: completePayment_def Let_def paid_orders_named_def pay_lines_tables
            insert_orders_def delete_order_items_def delete_order_shots_def delete_orders_def
            delete_orders_row_def on_delete_cascade_def
            split: option.splits sum.splits)
  qed
qed

text \<open>The bartender's quick sale of two beers with no table name.\<close>

theorem completePayment_quick_sale_name_witness:
  "orderType quick_sale = quick \<and> tableName quick_sale = [] \<and> cart quick_sale \<noteq> [] \<and>
   orderInsert accepting = Inr ''order-2'' \<and> editingTabId quick_sale \<noteq> Some ''order-2'' \<and>
   fst (completePayment (Some john) accepting tab_store quick_sale) = None \<and>
   \<lparr>order_id = ''order-2'', table_name = ''Quick Sale'', status = paid,
    payment_method = Some cash, total = 9, service_fee = 0, created_at = 20, updated_at = 20,
    staff_id = Some ''u-john''\<rparr>
     \<in> set (orders (fst (snd (completePayment (Some john) accepting tab_store quick_sale)))) \<and>
   paid_orders_named tab_store \<and>
   paid_orders_named (fst (snd (completePayment (Some john) accepting tab_store quick_sale)))"
proof -
  have h: "orderType quick_sale = quick \<and> tableName quick_sale = [] \<and> cart quick_sale \<noteq> [] \<and>
      orderInsert accepting = Inr ''order-2'' \<and> editingTabId quick_sale \<noteq> Some ''order-2''"
    by (simp add: quick_sale_fields accepting_fields)
  have inv: "paid_orders_named tab_store"
    by (simp add: paid_orders_named_def tab_store_def)
  have v: "calculateTotal (Some john) [beer_line 2] = 9"
    "calculateServiceFee (Some john) [beer_line 2] = 0"
    "user_id john = ''u-john''"
    by code_simp+
  note t = completePayment_quick_sale_name[of quick_sale accepting "''order-2''" "Some john" tab_store]
  from t[THEN conjunct1, rule_format, OF h, THEN conjunct1]
  have a: "fst (completePayment (Some john) accepting tab_store quick_sale) = None" .
  from t[THEN conjunct1, rule_format, OF h, THEN conjunct2]
  have b: "\<lparr>order_id = ''order-2'', table_name = ''Quick Sale'', status = paid,
    payment_method = Some cash, total = 9, service_fee = 0, created_at = 20, updated_at = 20,
    staff_id = Some ''u-john''\<rparr>
     \<in> set (orders (fst (snd (completePayment (Some john) accepting tab_store quick_sale))))"
    by (simp add: v quick_sale_fields accepting_fields)
  from t[THEN conjunct2, rule_format, OF inv]
  have c: "paid_orders_named (fst (snd (completePayment (Some john) accepting tab_store quick_sale)))" .
  from h inv a b c show ?thesis by blast
qed

section \<open>Reopening a saved tab\<close>

text \<open>
  The lines of a reopened tab are made from the rows of the order's lines and the catalog
  rows of their products. For cart lines whose products the catalog has at the prices of
  the lines, the rows written by \<^verbatim>\<open>saveAsTab\<close> give back lines with the tuples of the cart
  lines.
\<close>

lemma map_filter_tuples:
  assumes "\<And>d. d \<in> set ds \<Longrightarrow> \<exists>c. f (g d) = Some c \<and> h c = h d"
  shows "map h (List.map_filter f (map g ds)) = map h ds"
  using assms
proof (induction ds)
  case Nil
  then show ?case by (simp add: List.map_filter_simps)
next
  case (Cons d ds)
  from Cons.prems[of d] obtain c where c: "f (g d) = Some c" and h: "h c = h d" by auto
  have "map h (List.map_filter f (map g ds)) = map h ds"
    by (rule Cons.IH) (simp add: Cons.prems)
  with c h show ?case by (simp add: List.map_filter_simps)
qed

lemma hydrate_items_tuples:
  assumes "\<forall>ci \<in> set cs. line_priced db ci" and "items db' = items db"
    and "lines_of x (order_items db') = map (line_row user x) (item_lines cs)"
  shows "map line_tuple (hydrate_items db' x) = map line_tuple (item_lines cs)"
proof -
  let ?f = "\<lambda>oi. map_option
          (\<lambda>r. \<lparr>item = ItemP r, quantity = line_quantity oi, isShot = False, isSpecial = False\<rparr>)
          (find (\<lambda>r. item_id r = line_product_id oi) (items db))"
  have one: "\<exists>c. ?f (line_row user x ci) = Some c \<and> line_tuple c = line_tuple ci"
    if "line_priced db ci" "\<not> isShot ci" "\<not> isSpecial ci" for ci
  proof -
    from that obtain r where r: "find (\<lambda>r. item_id r = product_id (item ci)) (items db) = Some r"
      and p: "item_price r = product_price (item ci)"
      by (auto simp: line_priced_def)
    from r have "item_id r = product_id (item ci)" by (auto simp: find_Some_iff)
    with r p that(2,3) show ?thesis by (simp add: line_row_def line_tuple_def)
  qed
  have "map line_tuple (List.map_filter ?f (map (line_row user x) ds)) = map line_tuple ds"
    if "\<forall>ci \<in> set ds. line_priced db ci \<and> \<not> isShot ci \<and> \<not> isSpecial ci" for ds
    by (rule map_filter_tuples) (use that one in blast)
  moreover have "\<forall>ci \<in> set (item_lines cs). line_priced db ci \<and> \<not> isShot ci \<and> \<not> isSpecial ci"
    using assms(1) by (simp add: item_lines_def)
  ultimately have "map line_tuple (List.map_filter ?f (map (line_row user x) (item_lines cs)))
      = map line_tuple (item_lines cs)"
    by blast
  with assms(2,3) show ?thesis
    by (simp add: hydrate_items_def lines_of_def)
qed

lemma hydrate_shots_tuples:
  assumes "\<forall>ci \<in> set cs. line_priced db ci" and "shots db' = shots db"
    and "lines_of x (order_shots db') = map (line_row user x) (shot_lines cs)"
  shows "map line_tuple (hydrate_shots db' x) = map line_tuple (shot_lines cs)"
proof -
  let ?f = "\<lambda>os. map_option
          (\<lambda>r. \<lparr>item = ShotP r, quantity = line_quantity os, isShot = True, isSpecial = False\<rparr>)
          (find (\<lambda>r. shot_id r = line_product_id os) (shots db))"
  have one: "\<exists>c. ?f (line_row user x ci) = Some c \<and> line_tuple c = line_tuple ci"
    if "line_priced db ci" "isShot ci" for ci
  proof -
    from that obtain r where r: "find (\<lambda>r. shot_id r = product_id (item ci)) (shots db) = Some r"
      and p: "shot_price r = product_price (item ci)" and n: "\<not> isSpecial ci"
      by (auto simp: line_priced_def)
    from r have "shot_id r = product_id (item ci)" by (auto simp: find_Some_iff)
    with r p n that(2) show ?thesis by (simp add: line_row_def line_tuple_def)
  qed
  have "map line_tuple (List.map_filter ?f (map (line_row user x) ds)) = map line_tuple ds"
    if "\<forall>ci \<in> set ds. line_priced db ci \<and> isShot ci" for ds
    by (rule map_filter_tuples) (use that one in blast)
  moreover have "\<forall>ci \<in> set (shot_lines cs). line_priced db ci \<and> isShot ci"
    using assms(1) by (simp add: shot_lines_def)
  ultimately have "map line_tuple (List.map_filter ?f (map (line_row user x) (shot_lines cs)))
      = map line_tuple (shot_lines cs)"
    by blast
  with assms(2,3) show ?thesis
    by (simp add: hydrate_shots_def lines_of_def)
qed

lemma hydrate_specials_tuples:
  assumes "\<forall>ci \<in> set cs. line_priced db ci" and "specials db' = specials db"
    and "lines_of x (order_specials db') = map (line_row user x) (special_lines cs)"
  shows "map line_tuple (hydrate_specials db' x) = map line_tuple (special_lines cs)"
proof -
  let ?f = "\<lambda>osp. map_option
          (\<lambda>r. \<lparr>item = SpecialP r, quantity = line_quantity osp, isShot = False, isSpecial = True\<rparr>)
          (find (\<lambda>r. special_id r = line_product_id osp) (specials db))"
  have one: "\<exists>c. ?f (line_row user x ci) = Some c \<and> line_tuple c = line_tuple ci"
    if "line_priced db ci" "\<not> isShot ci" "isSpecial ci" for ci
  proof -
    from that obtain r where r: "find (\<lambda>r. special_id r = product_id (item ci)) (specials db) = Some r"
      and p: "special_price r = product_price (item ci)"
      by (auto simp: line_priced_def)
    from r have "special_id r = product_id (item ci)" by (auto simp: find_Some_iff)
    with r p that(2,3) show ?thesis by (simp add: line_row_def line_tuple_def)
  qed
  have "map line_tuple (List.map_filter ?f (map (line_row user x) ds)) = map line_tuple ds"
    if "\<forall>ci \<in> set ds. line_priced db ci \<and> \<not> isShot ci \<and> isSpecial ci" for ds
    by (rule map_filter_tuples) (use that one in blast)
  moreover have "\<forall>ci \<in> set (special_lines cs). line_priced db ci \<and> \<not> isShot ci \<and> isSpecial ci"
    using assms(1) by (simp add: special_lines_def)
  ultimately have "map line_tuple (List.map_filter ?f (map (line_row user x) (special_lines cs)))
      = map line_tuple (special_lines cs)"
    by blast
  with assms(2,3) show ?thesis
    by (simp add: hydrate_specials_def lines_of_def)
qed

lemma find_unique:
  assumes "y \<in> set ys" and "p y" and "\<And>z. z \<in> set ys \<Longrightarrow> p z \<Longrightarrow> z = y"
  shows "find p ys = Some y"
proof (cases "find p ys")
  case None
  with assms(1,2) show ?thesis by (simp add: find_None_iff)
next
  case (Some z)
  then have "z \<in> set ys" "p z" by (auto simp: find_Some_iff)
  with assms(3) Some show ?thesis by blast
qed

lemma find_map_tab:
  "find (\<lambda>t. tab_id t = x) (map (to_tab db) os) = map_option (to_tab db) (find (\<lambda>r. order_id r = x) os)"
  by (induction os) (simp_all add: to_tab_def)

lemma reopen_saved_tab:
  assumes cur: "\<forall>ci \<in> set cs. line_priced db ci"
    and cat: "items db' = items db" "shots db' = shots db" "specials db' = specials db"
    and lines: "lines_of x (order_items db') = map (line_row user x) (item_lines cs)"
      "lines_of x (order_shots db') = map (line_row user x) (shot_lines cs)"
      "lines_of x (order_specials db') = map (line_row user x) (special_lines cs)"
    and ord: "r \<in> set (orders db')" "order_id r = x" "status r = pending"
      "staff_id r = Some (user_id u)"
    and uniq: "\<And>z. z \<in> set (orders db') \<Longrightarrow> order_id z = x \<Longrightarrow> z = r"
  shows "map line_tuple (cart (reopenForEdit x (setOpenTabs (Some u) db' p))) =
         map line_tuple (item_lines cs @ shot_lines cs @ special_lines cs)"
proof -
  let ?os = "rev (sort_key updated_at
               (filter (\<lambda>r. status r = pending \<and> staff_id r = Some (user_id u)) (orders db')))"
  have items: "map line_tuple (tab_items (to_tab db' r)) =
      map line_tuple (item_lines cs @ shot_lines cs @ special_lines cs)"
    using hydrate_items_tuples[OF cur cat(1) lines(1)] hydrate_shots_tuples[OF cur cat(2) lines(2)]
      hydrate_specials_tuples[OF cur cat(3) lines(3)] ord(2)
    by (simp add: to_tab_def)
  from ord have mem: "r \<in> set ?os" by simp
  have "find (\<lambda>r. order_id r = x) ?os = Some r"
  proof (rule find_unique[where p = "\<lambda>r. order_id r = x", OF mem])
    show "order_id r = x" by (rule ord(2))
  next
    fix z assume "z \<in> set ?os" "order_id z = x"
    then show "z = r" using uniq by simp
  qed
  then have f: "find (\<lambda>t. tab_id t = x) (map (to_tab db') ?os) = Some (to_tab db' r)"
    by (simp only: find_map_tab option.map)
  have tabs: "openTabs (setOpenTabs (Some u) db' p) = map (to_tab db') ?os"
    by (simp add: setOpenTabs_def loadOpenTabs_def)
  have "cart (reopenForEdit x (setOpenTabs (Some u) db' p)) = tab_items (to_tab db' r)"
    unfolding reopenForEdit_def tabs f by (simp add: loadTab_def)
  with items show ?thesis by simp
qed

lemma reopen_new_tab:
  assumes name: "tableName pos \<noteq> []" and cart: "cart pos \<noteq> []"
    and new: "editingTabId pos = None" "orderInsert env = Inr newId"
    and fresh: "\<forall>r \<in> set (orders db). order_id r \<noteq> newId"
      "lines_of newId (order_items db) = []" "lines_of newId (order_shots db) = []"
      "lines_of newId (order_specials db) = []"
    and cur: "\<forall>ci \<in> set (cart pos). line_priced db ci"
  shows "map line_tuple (cart (reopenForEdit newId (snd (snd (saveAsTab (Some u) env db pos))))) =
         map line_tuple (item_lines (cart pos) @ shot_lines (cart pos) @ special_lines (cart pos))"
proof -
  let ?user = "Some u"
  let ?r = "saveAsTab ?user env db pos"
  let ?db = "fst (snd ?r)"
  let ?o = "\<lparr>order_id = newId, table_name = tableName pos, status = pending,
             payment_method = None, total = calculateTotal ?user (cart pos),
             service_fee = calculateServiceFee ?user (cart pos), created_at = now env,
             updated_at = now env, staff_id = map_option user_id ?user\<rparr>"
  from name cart new have db: "?db = save_lines ?user newId (cart pos) (insert_orders ?o db)"
    and st: "snd (snd ?r) = setOpenTabs ?user ?db (pos\<lparr>cart := [], tableName := [], editingTabId := None\<rparr>)"
    by (simp_all add: saveAsTab_def Let_def)
  have tables: "items ?db = items db" "shots ?db = shots db" "specials ?db = specials db"
    "orders ?db = orders db @ [?o]"
    by (simp_all add: db save_lines_tables insert_orders_def)
  from saveAsTab_new_tab_lines[OF name cart new, of ?user db] fresh
  have lines: "lines_of newId (order_items ?db) = map (line_row ?user newId) (item_lines (cart pos))"
    "lines_of newId (order_shots ?db) = map (line_row ?user newId) (shot_lines (cart pos))"
    "lines_of newId (order_specials ?db) = map (line_row ?user newId) (special_lines (cart pos))"
    by simp_all
  have mem: "?o \<in> set (orders ?db)" by (simp add: tables)
  have uniq: "z = ?o" if "z \<in> set (orders ?db)" "order_id z = newId" for z
  proof -
    from that(1) have "z \<in> set (orders db) \<or> z = ?o" by (auto simp: tables)
    with that(2) fresh(1) show ?thesis by blast
  qed
  show ?thesis
    unfolding st
    by (rule reopen_saved_tab[OF cur tables(1,2,3) lines mem _ _ _ uniq]) simp_all
qed

lemma reopen_edited_tab:
  assumes name: "tableName pos \<noteq> []" and cart: "cart pos \<noteq> []"
    and edit: "editingTabId pos = Some tabId" "updateError env = None"
    and ord: "r \<in> set (orders db)" "order_id r = tabId" "status r = pending"
      "staff_id r = Some (user_id u)"
    and one: "\<And>z. z \<in> set (orders db) \<Longrightarrow> order_id z = tabId \<Longrightarrow> z = r"
    and cur: "\<forall>ci \<in> set (cart pos). line_priced db ci"
  shows "map line_tuple (cart (reopenForEdit tabId (snd (snd (saveAsTab (Some u) env db pos))))) =
         map line_tuple (item_lines (cart pos) @ shot_lines (cart pos) @ special_lines (cart pos))"
proof -
  let ?user = "Some u"
  let ?r = "saveAsTab ?user env db pos"
  let ?db = "fst (snd ?r)"
  let ?f = "\<lambda>r. r\<lparr>table_name := tableName pos, total := calculateTotal ?user (cart pos),
                   service_fee := calculateServiceFee ?user (cart pos), updated_at := now env\<rparr>"
  from name cart edit have st: "snd (snd ?r) =
      setOpenTabs ?user ?db (pos\<lparr>cart := [], tableName := [], editingTabId := None\<rparr>)"
    and tables: "items ?db = items db" "shots ?db = shots db" "specials ?db = specials db"
      "orders ?db = map (\<lambda>r. if order_id r = tabId then ?f r else r) (orders db)"
    by (simp_all add: saveAsTab_def Let_def save_lines_tables delete_order_items_def
          delete_order_shots_def delete_order_specials_def update_orders_def)
  note t = saveAsTab_replaces_lines[OF name cart edit, of ?user db]
  from t[THEN conjunct2, THEN conjunct1] t[THEN conjunct2, THEN conjunct2, THEN conjunct1]
    t[THEN conjunct2, THEN conjunct2, THEN conjunct2, THEN conjunct1]
  have lines: "lines_of tabId (order_items ?db) = map (line_row ?user tabId) (item_lines (cart pos))"
    "lines_of tabId (order_shots ?db) = map (line_row ?user tabId) (shot_lines (cart pos))"
    "lines_of tabId (order_specials ?db) = map (line_row ?user tabId) (special_lines (cart pos))"
    by simp_all
  from ord(1,2) have mem: "?f r \<in> set (orders ?db)"
    unfolding tables(4) by (auto intro!: image_eqI[of _ _ r])
  have uniq: "z = ?f r" if "z \<in> set (orders ?db)" "order_id z = tabId" for z
  proof -
    from that(1) obtain y where y: "y \<in> set (orders db)"
      "z = (if order_id y = tabId then ?f y else y)"
      unfolding tables(4) by auto
    with that(2) have "order_id y = tabId" by (cases "order_id y = tabId") auto
    with y one show ?thesis by auto
  qed
  show ?thesis
    unfolding st
    by (rule reopen_saved_tab[OF cur tables(1,2,3) lines mem _ _ _ uniq])
       (simp_all add: ord)
qed

text \<open>
  C5, as amended. For a cart that is not empty and whose lines have the unit prices that
  the catalog has for their products, \<^verbatim>\<open>saveAsTab\<close> (of a new tab, or of a reopened tab of the
  caller) followed at once by reopening that tab for edit gives a cart whose lines have
  the tuples of product, variant, quantity and unit price of the lines of the cart that
  was saved, each as often as there; so the sets of tuples are equal.
\<close>

theorem saveAsTab_reopen_roundtrip:
  assumes "tableName pos \<noteq> []" and "cart pos \<noteq> []"
    and "\<forall>ci \<in> set (cart pos). line_priced db ci"
    and "new_tab_accepted x env db pos \<or> edited_tab_accepted x u env db pos"
  shows "mset (map line_tuple (cart (reopenForEdit x (snd (snd (saveAsTab (Some u) env db pos)))))) =
           mset (map line_tuple (cart pos)) \<and>
         set (map line_tuple (cart (reopenForEdit x (snd (snd (saveAsTab (Some u) env db pos)))))) =
           set (map line_tuple (cart pos))"
proof -
  let ?c = "cart (reopenForEdit x (snd (snd (saveAsTab (Some u) env db pos))))"
  have c: "map line_tuple ?c =
      map line_tuple (item_lines (cart pos) @ shot_lines (cart pos) @ special_lines (cart pos))"
    using assms(4)
  proof
    assume "new_tab_accepted x env db pos"
    then have n: "editingTabId pos = None" "orderInsert env = Inr x"
      and f: "\<forall>r \<in> set (orders db). order_id r \<noteq> x"
        "lines_of x (order_items db) = []" "lines_of x (order_shots db) = []"
        "lines_of x (order_specials db) = []"
      by (simp_all add: new_tab_accepted_def list_all_iff)
    show ?thesis by (rule reopen_new_tab[OF assms(1,2) n f assms(3)])
  next
    assume "edited_tab_accepted x u env db pos"
    then have e: "editingTabId pos = Some x" "updateError env = None"
      and ex: "\<exists>r \<in> set (orders db). order_id r = x \<and> status r = pending \<and>
          staff_id r = Some (user_id u) \<and> (\<forall>z \<in> set (orders db). order_id z = x \<longrightarrow> z = r)"
      by (simp_all add: edited_tab_accepted_def list_ex_iff list_all_iff)
    from ex obtain r where r0: "r \<in> set (orders db)"
      and r1: "order_id r = x \<and> status r = pending \<and>
          staff_id r = Some (user_id u) \<and> (\<forall>z \<in> set (orders db). order_id z = x \<longrightarrow> z = r)" ..
    note r = r0 r1[THEN conjunct1] r1[THEN conjunct2, THEN conjunct1]
      r1[THEN conjunct2, THEN conjunct2, THEN conjunct1]
    note one = r1[THEN conjunct2, THEN conjunct2, THEN conjunct2]
    have one': "z = r" if "z \<in> set (orders db)" "order_id z = x" for z
    proof -
      from one that(1) have "order_id z = x \<longrightarrow> z = r" by (rule bspec)
      then show ?thesis using that(2) by (rule mp)
    qed
    show ?thesis by (rule reopen_edited_tab[OF assms(1,2) e r one' assms(3)])
  qed
  have "mset (map line_tuple ?c) =
      image_mset line_tuple
        (mset (item_lines (cart pos)) + mset (shot_lines (cart pos)) + mset (special_lines (cart pos)))"
    by (simp only: c mset_map mset_append add.assoc)
  also have "\<dots> = mset (map line_tuple (cart pos))"
    by (simp only: cart_lines_partition mset_map)
  finally have m: "mset (map line_tuple ?c) = mset (map line_tuple (cart pos))" .
  then have "set (map line_tuple ?c) = set (map line_tuple (cart pos))" by (rule mset_eq_setD)
  with m show ?thesis by (rule conjI)
qed

text \<open>
  Two beers saved as a new tab while the catalog has the beer at the price of the cart
  line and, two beers having been sold at another till, with a stock of 3 where the cart
  line has 5; and the edited tab of one beer and two shots. Each is reopened at once.
\<close>

theorem saveAsTab_reopen_roundtrip_witness:
  "tableName new_tab \<noteq> [] \<and> cart new_tab \<noteq> [] \<and>
   list_all (line_priced (tab_store\<lparr>items := [beer\<lparr>item_quantity := 3\<rparr>]\<rparr>)) (cart new_tab) \<and>
   new_tab_accepted ''order-2'' accepting (tab_store\<lparr>items := [beer\<lparr>item_quantity := 3\<rparr>]\<rparr>)
     new_tab \<and>
   map line_tuple (cart new_tab) = [(''beer-1'', False, False, 2, 9 / 2)] \<and>
   set (map line_tuple (cart (reopenForEdit ''order-2''
          (snd (snd (saveAsTab (Some mary) accepting
             (tab_store\<lparr>items := [beer\<lparr>item_quantity := 3\<rparr>]\<rparr>) new_tab)))))) =
     {(''beer-1'', False, False, 2, 9 / 2)} \<and>
   tableName editing \<noteq> [] \<and> cart editing \<noteq> [] \<and>
   list_all (line_priced tab_store) (cart editing) \<and>
   edited_tab_accepted ''tab-1'' mary accepting tab_store editing \<and>
   map line_tuple (cart editing) =
     [(''beer-1'', False, False, 1, 9 / 2), (''shot-1'', True, False, 2, 50)] \<and>
   mset (map line_tuple (cart (reopenForEdit ''tab-1''
          (snd (snd (saveAsTab (Some mary) accepting tab_store editing)))))) =
     mset [(''beer-1'', False, False, 1, 9 / 2), (''shot-1'', True, False, 2, 50)]"
proof -
  let ?db = "tab_store\<lparr>items := [beer\<lparr>item_quantity := 3\<rparr>]\<rparr>"
  have cn: "tableName new_tab \<noteq> []" "cart new_tab \<noteq> []"
    and ce: "tableName editing \<noteq> []" "cart editing \<noteq> []"
    by (simp_all add: new_tab_def editing_def mounted_def)
  have ln: "list_all (line_priced ?db) (cart new_tab)"
    and le: "list_all (line_priced tab_store) (cart editing)"
    by (simp_all add: new_tab_def editing_def mounted_def line_priced_def tab_store_def
          beer_line_def hennessy_line_def beer_def hennessy_def)
  have an: "new_tab_accepted ''order-2'' accepting ?db new_tab"
    by (simp add: new_tab_accepted_def new_tab_def mounted_def accepting_def tab_store_def
          lines_of_def)
  have ae: "edited_tab_accepted ''tab-1'' mary accepting tab_store editing"
    by (simp add: edited_tab_accepted_def editing_def mounted_def accepting_def tab_store_def
          mary_def)
  from ln have ln': "\<forall>ci \<in> set (cart new_tab). line_priced ?db ci"
    by (simp add: list_all_iff)
  from le have le': "\<forall>ci \<in> set (cart editing). line_priced tab_store ci"
    by (simp add: list_all_iff)
  from an have an': "new_tab_accepted ''order-2'' accepting ?db new_tab \<or>
      edited_tab_accepted ''order-2'' mary accepting ?db new_tab" ..
  from ae have ae': "new_tab_accepted ''tab-1'' accepting tab_store editing \<or>
      edited_tab_accepted ''tab-1'' mary accepting tab_store editing" ..
  have tn: "map line_tuple (cart new_tab) = [(''beer-1'', False, False, 2, 9 / 2)]"
    and te: "map line_tuple (cart editing) =
      [(''beer-1'', False, False, 1, 9 / 2), (''shot-1'', True, False, 2, 50)]"
    by (simp_all add: new_tab_def editing_def mounted_def line_tuple_def beer_line_def
          hennessy_line_def beer_def hennessy_def)
  from saveAsTab_reopen_roundtrip[OF cn ln' an', THEN conjunct2]
  have rn: "set (map line_tuple (cart (reopenForEdit ''order-2''
          (snd (snd (saveAsTab (Some mary) accepting ?db new_tab)))))) =
     {(''beer-1'', False, False, 2, 9 / 2)}"
    by (simp only: tn list.set)
  from saveAsTab_reopen_roundtrip[OF ce le' ae', THEN conjunct1]
  have re: "mset (map line_tuple (cart (reopenForEdit ''tab-1''
          (snd (snd (saveAsTab (Some mary) accepting tab_store editing)))))) =
     mset [(''beer-1'', False, False, 1, 9 / 2), (''shot-1'', True, False, 2, 50)]"
    by (simp only: te)
  from cn ln an tn rn ce le ae te re show ?thesis by (intro conjI)
qed

text \<open>
  C5, as stated, fails for a cart line that is older than the catalog, since
  \<^verbatim>\<open>loadOpenTabs\<close> fills a reopened cart with the catalog rows as they are, not with the
  \<^verbatim>\<open>price_at_time\<close> of the order lines. Here the cart line holds the beer at 4.50 and the
  catalog has it at 5.00: the tab is saved with \<^verbatim>\<open>price_at_time\<close> 4.50, and reopening it at
  once gives a cart line at 5.00, so the lines of the reopened cart are not those of the
  cart that was saved.
\<close>

theorem reopen_reads_catalog_price:
  "tableName new_tab \<noteq> [] \<and> cart new_tab \<noteq> [] \<and>
   new_tab_accepted ''order-2'' accepting till_store new_tab \<and>
   \<not> line_priced till_store (beer_line 2) \<and>
   fst (saveAsTab (Some mary) accepting till_store new_tab) = None \<and>
   map line_tuple (cart new_tab) = [(''beer-1'', False, False, 2, 9 / 2)] \<and>
   map price_at_time
     (order_items (fst (snd (saveAsTab (Some mary) accepting till_store new_tab)))) = [9 / 2] \<and>
   map line_tuple
     (cart (reopenForEdit ''order-2''
        (snd (snd (saveAsTab (Some mary) accepting till_store new_tab))))) =
     [(''beer-1'', False, False, 2, 5)] \<and>
   set (map line_tuple
     (cart (reopenForEdit ''order-2''
        (snd (snd (saveAsTab (Some mary) accepting till_store new_tab)))))) \<noteq>
   set (map line_tuple (cart new_tab))"
proof -
  let ?r = "saveAsTab (Some mary) accepting till_store new_tab"
  let ?row = "\<lparr>line_order_id = ''order-2'', line_product_id = ''beer-1'',
       line_staff_id = Some ''u-mary'', line_quantity = 2, price_at_time = 9 / 2\<rparr>"
  have ok: "fst ?r = None"
    by (simp add: saveAsTab_def Let_def new_tab_fields accepting_fields)
  have db: "order_items (fst (snd ?r)) = [?row]" "items (fst (snd ?r)) = [beer\<lparr>item_quantity := 3, item_price := 5\<rparr>]"
    "map order_id (orders (fst (snd ?r))) = [''order-2'']"
    by (simp_all add: saveAsTab_def Let_def new_tab_fields accepting_fields
          insert_orders_def insert_order_items_def till_store_fields beer_line_def
          line_row_def beer_def mary_def)
  have tabs: "map (\<lambda>t. (tab_id t, map line_tuple (tab_items t))) (openTabs (snd (snd ?r))) =
      [(''order-2'', [(''beer-1'', False, False, 2, 5)])]"
    by (simp add: saveAsTab_def Let_def new_tab_fields accepting_fields setOpenTabs_def
          loadOpenTabs_def to_tab_def hydrate_items_def hydrate_shots_def hydrate_specials_def
          List.map_filter_simps insert_orders_def insert_order_items_def till_store_fields
          beer_line_def line_row_def beer_def mary_def line_tuple_def)
  then obtain t where t: "openTabs (snd (snd ?r)) = [t]" "tab_id t = ''order-2''"
    "map line_tuple (tab_items t) = [(''beer-1'', False, False, 2, 5)]"
    by (cases "openTabs (snd (snd ?r))") auto
  then have re: "map line_tuple (cart (reopenForEdit ''order-2'' (snd (snd ?r)))) =
      [(''beer-1'', False, False, 2, 5)]"
    by (simp add: reopenForEdit_def loadTab_def)
  have sv: "map line_tuple (cart new_tab) = [(''beer-1'', False, False, 2, 9 / 2)]"
    by (simp add: new_tab_fields line_tuple_def beer_line_def beer_def)
  have pre: "tableName new_tab \<noteq> []" "cart new_tab \<noteq> []"
    "new_tab_accepted ''order-2'' accepting till_store new_tab"
    "\<not> line_priced till_store (beer_line 2)"
    by (simp_all add: new_tab_fields new_tab_accepted_def accepting_fields till_store_fields
          lines_of_def line_priced_def beer_line_def beer_def)
  from pre ok db(1) re sv show ?thesis by simp
qed

section \<open>The stock written by a payment\<close>

text \<open>
  The rows of \<^verbatim>\<open>items\<close> after the loop of \<^verbatim>\<open>completePayment\<close>: every row has gone through
  the cart lines in turn, and an item line with the id of the row has set its quantity to
  the quantity of the item as the cart line holds it, less the line's quantity. Shots and
  specials change no row.
\<close>

lemma pay_lines_items:
  "items (pay_lines user x cs db) = map (\<lambda>r. foldl stock_step r cs) (items db)"
proof (induction cs arbitrary: db)
  case Nil
  show ?case by simp
next
  case (Cons c cs)
  let ?db = "(if isShot c then insert_order_shots (line_row user x c) db
        else if isSpecial c then insert_order_specials (line_row user x c) db
        else
          (let db1 = insert_order_items (line_row user x c) db in
           case product_quantity (item c) of
             Some stock \<Rightarrow>
               update_items (\<lambda>r. r\<lparr>item_quantity := stock - quantity c\<rparr>)
                 (product_id (item c)) db1
           | None \<Rightarrow> db1))"
  have "items ?db = map (\<lambda>r. stock_step r c) (items db)"
  proof (cases "product_quantity (item c)")
    case None
    then have "stock_step r c = r" for r by (simp add: stock_step_def)
    with None show ?thesis
      by (simp add: Let_def insert_order_shots_def insert_order_specials_def
            insert_order_items_def)
  next
    case (Some stock)
    then show ?thesis
      by (simp add: stock_step_def Let_def insert_order_shots_def insert_order_specials_def
            insert_order_items_def update_items_def)
  qed
  with Cons.IH[of ?db] show ?case by (simp add: comp_def)
qed

lemma pay_lines_keep_stock:
  "item_lines cs = [] \<Longrightarrow> items (pay_lines user x cs db) = items db"
proof (induction cs arbitrary: db)
  case Nil
  then show ?case by simp
next
  case (Cons c cs)
  from Cons.prems have c: "isShot c \<or> isSpecial c" and cs: "item_lines cs = []"
    by (auto simp: item_lines_def split: if_splits)
  from c Cons.IH[OF cs] show ?case
    by (auto simp: insert_order_shots_def insert_order_specials_def)
qed

text \<open>
  With a cart line that holds the item as the store has it, the payment takes the line's
  quantity off the stock: in Scenario C two of five beers are sold and three are left, and
  the order line has the unit price of the cart line.
\<close>

lemma scenario_C:
  "map item_quantity (items tab_store) = [5] \<and>
   map item_quantity
     (items (fst (snd (completePayment (Some john) accepting tab_store quick_sale)))) = [3] \<and>
   map price_at_time
     (lines_of ''order-2''
        (order_items (fst (snd (completePayment (Some john) accepting tab_store quick_sale))))) =
     [9 / 2]"
  by (simp add: completePayment_def Let_def quick_sale_fields accepting_fields tab_store_def
        insert_orders_def insert_order_items_def update_items_def line_row_def lines_of_def
        beer_line_def beer_def john_def)

text \<open>
  C2. The stock written by \<^verbatim>\<open>completePayment\<close> is the quantity of the item as the cart line
  holds it, less the line's quantity; the stored quantity is not read. Here the store has
  3 beers (another till sold two since the line was added) and the cart line, of quantity
  2, holds the beer with 5: the payment is completed and the store has 3 beers as before,
  not 1. The order line keeps the unit price of the cart line, 4.50, though the catalog
  price is 5.00 by now.
\<close>

theorem completePayment_stale_stock:
  "map item_quantity (items till_store) = [3] \<and>
   map item_price (items till_store) = [5] \<and>
   map quantity (cart quick_sale) = [2] \<and>
   map (product_quantity \<circ> item) (cart quick_sale) = [Some 5] \<and>
   fst (completePayment (Some john) accepting till_store quick_sale) = None \<and>
   map item_quantity
     (items (fst (snd (completePayment (Some john) accepting till_store quick_sale)))) = [3] \<and>
   order_items (fst (snd (completePayment (Some john) accepting till_store quick_sale))) =
     [\<lparr>line_order_id = ''order-2'', line_product_id = ''beer-1'', line_staff_id = Some ''u-john'',
       line_quantity = 2, price_at_time = 9 / 2\<rparr>]"
  by (simp add: completePayment_def Let_def quick_sale_fields accepting_fields till_store_fields
        insert_orders_def insert_order_items_def update_items_def line_row_def
        beer_line_def beer_def john_def)

end
